theory Spec2Isabelle
  imports Complex_Main "HOL-Library.Sublist"
begin

section \<open>Go values shared by both packages\<close>

text \<open>
  A Go \<open>string\<close> is a sequence of bytes; the message literals of the source are UTF-8, so
  they are written here byte by byte wherever they leave ASCII. A Go \<open>error\<close> is a value
  with a description (\<open>Error()\<close>) and, when it was built with the verb \<open>%w\<close>, the error it
  wraps (\<open>Unwrap()\<close>).
\<close>

datatype error = GoError (Error: string) (Unwrap: "error option")

text \<open>\<open>fmt.Errorf(msg)\<close> without a wrapping verb.\<close>

definition Errorf :: "string \<Rightarrow> error" where
  "Errorf msg = GoError msg None"

text \<open>\<open>fmt.Errorf(prefix + "%w", err)\<close>: the description is extended, the cause is kept.\<close>

definition Errorf_w :: "string \<Rightarrow> error \<Rightarrow> error" where
  "Errorf_w pre err = GoError (pre @ Error err) (Some err)"

text \<open>The verb \<open>%d\<close> on an integer.\<close>

definition digit :: "nat \<Rightarrow> char" where
  "digit n = ''0123456789'' ! n"

function decimal :: "nat \<Rightarrow> string" where
  "decimal n = (if n < 10 then [digit n] else decimal (n div 10) @ [digit (n mod 10)])"
  by pat_completeness auto
termination
  by (relation "measure id") auto

declare decimal.simps [simp del]

definition Sprintf_d :: "int \<Rightarrow> string" where
  "Sprintf_d i = (if i < 0 then CHR ''-'' # decimal (nat (- i)) else decimal (nat i))"

text \<open>\<open>strings.Contains(s, substr)\<close>: some suffix of \<open>s\<close> starts with \<open>substr\<close>.\<close>

fun Contains :: "string \<Rightarrow> string \<Rightarrow> bool" where
  "Contains [] substr = (substr = [])"
| "Contains (c # cs) substr = (prefix substr (c # cs) \<or> Contains cs substr)"


section \<open>Package mcp: the invocation client (mcp/client.go)\<close>

text \<open>\<open>type Provider string\<close> with its three constants.\<close>

type_synonym Provider = string

definition ProviderDeepSeek :: Provider where "ProviderDeepSeek = ''deepseek''"
definition ProviderQwen :: Provider where "ProviderQwen = ''qwen''"
definition ProviderCustom :: Provider where "ProviderCustom = ''custom''"

text \<open>\<open>time.Duration\<close> counts nanoseconds; the values of this file stay far below 2^63.\<close>

type_synonym Duration = int

definition Second :: Duration where "Second = 1000000000"

record Config =
  Provider :: Provider
  APIKey :: string
  SecretKey :: string
  BaseURL :: string
  Model :: string
  Timeout :: Duration

text \<open>
  What one attempt puts on the wire: the URL, the headers, and the fields of the JSON body
  (the message list as pairs of role and content).
\<close>

record request =
  url :: string
  content_type :: string
  authorization :: string
  timeout :: Duration
  body_model :: string
  body_messages :: "(string \<times> string) list"
  body_temperature :: rat
  body_max_tokens :: int

text \<open>
  What the outside world does with one attempt. The standard library calls that can fail
  are, in the order of the source: \<open>json.Marshal\<close>, \<open>http.NewRequest\<close>, \<open>client.Do\<close>,
  \<open>io.ReadAll\<close>; otherwise a status code and a body come back.
\<close>

datatype exchange =
    MarshalFails error
  | NewRequestFails error
  | DoFails error
  | ReadAllFails error
  | Reply int string

text \<open>The fields of the anonymous response struct that \<open>callOnce\<close> reads.\<close>

record completion =
  Choices :: "string list"
  TotalTokens :: int

text \<open>
  The environment of the client: the outcome of the n-th attempt (counted from 0 over the
  life of the process) for a given request, and \<open>json.Unmarshal\<close> on a response body.
\<close>

record world =
  wire :: "nat \<Rightarrow> request \<Rightarrow> exchange"
  Unmarshal :: "string \<Rightarrow> error + completion"

text \<open>
  The state the package touches: the shared \<open>defaultConfig\<close>, the number of attempts made
  so far, and the waits made by \<open>time.Sleep\<close>, oldest first. Console output is not kept.
\<close>

record mcp =
  defaultConfig :: Config
  attempts :: nat
  slept :: "Duration list"

definition initial_defaultConfig :: Config where
  "initial_defaultConfig =
     \<lparr>Provider = ProviderDeepSeek, APIKey = '''', SecretKey = '''',
      BaseURL = ''https://api.deepseek.com/v1'', Model = ''deepseek-chat'',
      Timeout = 120 * Second\<rparr>"

definition SetDeepSeekAPIKey :: "string \<Rightarrow> mcp \<Rightarrow> mcp" where
  "SetDeepSeekAPIKey apiKey st =
     st\<lparr>defaultConfig := (defaultConfig st)
          \<lparr>Provider := ProviderDeepSeek, APIKey := apiKey,
           BaseURL := ''https://api.deepseek.com/v1'', Model := ''deepseek-chat''\<rparr>\<rparr>"

definition SetQwenAPIKey :: "string \<Rightarrow> string \<Rightarrow> mcp \<Rightarrow> mcp" where
  "SetQwenAPIKey apiKey secretKey st =
     st\<lparr>defaultConfig := (defaultConfig st)
          \<lparr>Provider := ProviderQwen, APIKey := apiKey, SecretKey := secretKey,
           BaseURL := ''https://dashscope.aliyuncs.com/compatible-mode/v1'',
           Model := ''qwen-plus''\<rparr>\<rparr>"

definition SetCustomAPI :: "string \<Rightarrow> string \<Rightarrow> string \<Rightarrow> mcp \<Rightarrow> mcp" where
  "SetCustomAPI apiURL apiKey modelName st =
     st\<lparr>defaultConfig := (defaultConfig st)
          \<lparr>Provider := ProviderCustom, APIKey := apiKey, BaseURL := apiURL,
           Model := modelName, Timeout := 120 * Second\<rparr>\<rparr>"

definition SetConfig :: "Config \<Rightarrow> mcp \<Rightarrow> mcp" where
  "SetConfig config st =
     st\<lparr>defaultConfig := (if Timeout config = 0 then config\<lparr>Timeout := 30 * Second\<rparr> else config)\<rparr>"

definition build_request :: "Config \<Rightarrow> string \<Rightarrow> string \<Rightarrow> request" where
  "build_request cfg systemPrompt userPrompt =
     \<lparr>url = BaseURL cfg @ ''/chat/completions'',
      content_type = ''application/json'',
      authorization = ''Bearer '' @ APIKey cfg,
      timeout = Timeout cfg,
      body_model = Model cfg,
      body_messages =
        (if systemPrompt \<noteq> '''' then [(''system'', systemPrompt)] else []) @ [(''user'', userPrompt)],
      body_temperature = 1 / 2,
      body_max_tokens = 2000\<rparr>"

definition http_StatusOK :: int where "http_StatusOK = 200"

definition msg_marshal :: string where
  "msg_marshal = [CHR 0xE5, CHR 0xBA, CHR 0x8F, CHR 0xE5, CHR 0x88, CHR 0x97, CHR 0xE5, CHR 0x8C,
     CHR 0x96, CHR 0xE8, CHR 0xAF, CHR 0xB7, CHR 0xE6, CHR 0xB1, CHR 0x82, CHR 0xE5, CHR 0xA4,
     CHR 0xB1, CHR 0xE8, CHR 0xB4, CHR 0xA5] @ '': ''"

definition msg_new_request :: string where
  "msg_new_request = [CHR 0xE5, CHR 0x88, CHR 0x9B, CHR 0xE5, CHR 0xBB, CHR 0xBA, CHR 0xE8,
     CHR 0xAF, CHR 0xB7, CHR 0xE6, CHR 0xB1, CHR 0x82, CHR 0xE5, CHR 0xA4, CHR 0xB1, CHR 0xE8,
     CHR 0xB4, CHR 0xA5] @ '': ''"

definition msg_send :: string where
  "msg_send = [CHR 0xE5, CHR 0x8F, CHR 0x91, CHR 0xE9, CHR 0x80, CHR 0x81, CHR 0xE8, CHR 0xAF,
     CHR 0xB7, CHR 0xE6, CHR 0xB1, CHR 0x82, CHR 0xE5, CHR 0xA4, CHR 0xB1, CHR 0xE8, CHR 0xB4,
     CHR 0xA5] @ '': ''"

definition msg_read :: string where
  "msg_read = [CHR 0xE8, CHR 0xAF, CHR 0xBB, CHR 0xE5, CHR 0x8F, CHR 0x96, CHR 0xE5, CHR 0x93,
     CHR 0x8D, CHR 0xE5, CHR 0xBA, CHR 0x94, CHR 0xE5, CHR 0xA4, CHR 0xB1, CHR 0xE8, CHR 0xB4,
     CHR 0xA5] @ '': ''"

definition msg_status :: string where
  "msg_status = ''API'' @ [CHR 0xE8, CHR 0xBF, CHR 0x94, CHR 0xE5, CHR 0x9B, CHR 0x9E, CHR 0xE9,
     CHR 0x94, CHR 0x99, CHR 0xE8, CHR 0xAF, CHR 0xAF] @ '' (status ''"

definition msg_parse :: string where
  "msg_parse = [CHR 0xE8, CHR 0xA7, CHR 0xA3, CHR 0xE6, CHR 0x9E, CHR 0x90, CHR 0xE5, CHR 0x93,
     CHR 0x8D, CHR 0xE5, CHR 0xBA, CHR 0x94, CHR 0xE5, CHR 0xA4, CHR 0xB1, CHR 0xE8, CHR 0xB4,
     CHR 0xA5] @ '': ''"

definition msg_empty_response :: string where
  "msg_empty_response = ''API'' @ [CHR 0xE8, CHR 0xBF, CHR 0x94, CHR 0xE5, CHR 0x9B, CHR 0x9E,
     CHR 0xE7, CHR 0xA9, CHR 0xBA, CHR 0xE5, CHR 0x93, CHR 0x8D, CHR 0xE5, CHR 0xBA, CHR 0x94]"

definition msg_no_key_default :: string where
  "msg_no_key_default = ''AI API'' @ [CHR 0xE5, CHR 0xAF, CHR 0x86, CHR 0xE9, CHR 0x92, CHR 0xA5,
     CHR 0xE6, CHR 0x9C, CHR 0xAA, CHR 0xE8, CHR 0xAE, CHR 0xBE, CHR 0xE7, CHR 0xBD, CHR 0xAE,
     CHR 0xEF, CHR 0xBC, CHR 0x8C, CHR 0xE8, CHR 0xAF, CHR 0xB7, CHR 0xE5, CHR 0x85, CHR 0x88,
     CHR 0xE8, CHR 0xB0, CHR 0x83, CHR 0xE7, CHR 0x94, CHR 0xA8] @ '' SetDeepSeekAPIKey() '' @
     [CHR 0xE6, CHR 0x88, CHR 0x96] @ '' SetQwenAPIKey()''"

definition msg_no_key :: string where
  "msg_no_key = ''AI API'' @ [CHR 0xE5, CHR 0xAF, CHR 0x86, CHR 0xE9, CHR 0x92, CHR 0xA5,
     CHR 0xE6, CHR 0x9C, CHR 0xAA, CHR 0xE8, CHR 0xAE, CHR 0xBE, CHR 0xE7, CHR 0xBD, CHR 0xAE]"

definition msg_retry_pre :: string where
  "msg_retry_pre = [CHR 0xE9, CHR 0x87, CHR 0x8D, CHR 0xE8, CHR 0xAF, CHR 0x95]"

definition msg_retry_post :: string where
  "msg_retry_post = [CHR 0xE6, CHR 0xAC, CHR 0xA1, CHR 0xE5, CHR 0x90, CHR 0x8E, CHR 0xE4,
     CHR 0xBB, CHR 0x8D, CHR 0xE7, CHR 0x84, CHR 0xB6, CHR 0xE5, CHR 0xA4, CHR 0xB1, CHR 0xE8,
     CHR 0xB4, CHR 0xA5] @ '': ''"

text \<open>
  The part of \<open>callOnce\<close> after the exchange: every early return of the source is a branch.
\<close>

definition read_exchange :: "world \<Rightarrow> exchange \<Rightarrow> error + string" where
  "read_exchange w x =
     (case x of
        MarshalFails err \<Rightarrow> Inl (Errorf_w msg_marshal err)
      | NewRequestFails err \<Rightarrow> Inl (Errorf_w msg_new_request err)
      | DoFails err \<Rightarrow> Inl (Errorf_w msg_send err)
      | ReadAllFails err \<Rightarrow> Inl (Errorf_w msg_read err)
      | Reply status body \<Rightarrow>
          if status \<noteq> http_StatusOK
          then Inl (Errorf (msg_status @ Sprintf_d status @ ''): '' @ body))
          else (case Unmarshal w body of
                  Inl err \<Rightarrow> Inl (Errorf_w msg_parse err)
                | Inr result \<Rightarrow>
                    if length (Choices result) = 0 then Inl (Errorf msg_empty_response)
                    else Inr (Choices result ! 0)))"

definition callOnce ::
  "world \<Rightarrow> Config \<Rightarrow> string \<Rightarrow> string \<Rightarrow> mcp \<Rightarrow> (error + string) \<times> mcp" where
  "callOnce w cfg systemPrompt userPrompt st =
     (read_exchange w (wire w (attempts st) (build_request cfg systemPrompt userPrompt)),
      st\<lparr>attempts := Suc (attempts st)\<rparr>)"

definition retryableErrors :: "string list" where
  "retryableErrors =
     [''EOF'', ''timeout'', ''connection reset'', ''connection refused'',
      ''temporary failure'', ''no such host'']"

definition isRetryableError :: "error \<Rightarrow> bool" where
  "isRetryableError err = list_ex (\<lambda>retryable. Contains (Error err) retryable) retryableErrors"

definition maxRetries :: nat where "maxRetries = 3"

definition Sleep :: "Duration \<Rightarrow> mcp \<Rightarrow> mcp" where
  "Sleep d st = st\<lparr>slept := slept st @ [d]\<rparr>"

text \<open>
  The loop of \<open>CallWithMessages\<close>, entered with the attempt number and \<open>lastErr\<close>
  (\<open>None\<close> is Go's nil). The wrapped error after the loop names \<open>maxRetries\<close>.
\<close>

function retry_loop ::
  "world \<Rightarrow> string \<Rightarrow> string \<Rightarrow> nat \<Rightarrow> error option \<Rightarrow> mcp \<Rightarrow> (error + string) \<times> mcp" where
  "retry_loop w systemPrompt userPrompt attempt lastErr st =
     (if attempt \<le> maxRetries then
        (case callOnce w (defaultConfig st) systemPrompt userPrompt st of
           (Inr result, st1) \<Rightarrow> (Inr result, st1)
         | (Inl err, st1) \<Rightarrow>
             if \<not> isRetryableError err then (Inl err, st1)
             else retry_loop w systemPrompt userPrompt (attempt + 1) (Some err)
                    (if attempt < maxRetries then Sleep (int attempt * 2 * Second) st1 else st1))
      else
        (Inl (case lastErr of
                Some err \<Rightarrow> Errorf_w (msg_retry_pre @ Sprintf_d (int maxRetries) @ msg_retry_post) err
              | None \<Rightarrow> Errorf (msg_retry_pre @ Sprintf_d (int maxRetries) @ msg_retry_post
                                 @ ''%!w(<nil>)'')),
         st))"
  by pat_completeness auto
termination
  by (relation "measure (\<lambda>(w, s, u, attempt, l, st). Suc maxRetries - attempt)") auto

declare retry_loop.simps [simp del]

definition CallWithMessages ::
  "world \<Rightarrow> string \<Rightarrow> string \<Rightarrow> mcp \<Rightarrow> (error + string) \<times> mcp" where
  "CallWithMessages w systemPrompt userPrompt st =
     (if APIKey (defaultConfig st) = '''' then (Inl (Errorf msg_no_key_default), st)
      else retry_loop w systemPrompt userPrompt 1 None st)"

definition CallWithMessagesWithConfig ::
  "world \<Rightarrow> Config \<Rightarrow> string \<Rightarrow> string \<Rightarrow> mcp \<Rightarrow> (error + string) \<times> mcp" where
  "CallWithMessagesWithConfig w cfg systemPrompt userPrompt st =
     (if APIKey cfg = '''' then (Inl (Errorf msg_no_key), st)
      else callOnce w cfg systemPrompt userPrompt st)"


text \<open>What \<open>callOnce\<close> returns when \<open>n\<close> attempts were made before it.\<close>

definition outcome_at :: "world \<Rightarrow> Config \<Rightarrow> string \<Rightarrow> string \<Rightarrow> nat \<Rightarrow> error + string" where
  "outcome_at w cfg systemPrompt userPrompt n =
     read_exchange w (wire w n (build_request cfg systemPrompt userPrompt))"


section \<open>Packages config and db: trader records (db/trader.go)\<close>

text \<open>
  \<open>config.TraderConfig\<close> is declared outside the files at hand; its fields are the ones
  \<open>db.ToConfig\<close> fills. The two \<open>float64\<close> balances are only carried from one record to
  the other, never computed on.
\<close>

record TraderConfig =
  ID :: string
  Name :: string
  AIModel :: string
  Exchange :: string
  BinanceAPIKey :: string
  BinanceSecretKey :: string
  BinanceTestnet :: bool
  HyperliquidPrivateKey :: string
  HyperliquidTestnet :: bool
  AsterUser :: string
  AsterSigner :: string
  AsterPrivateKey :: string
  QwenKey :: string
  DeepSeekKey :: string
  CustomAPIURL :: string
  CustomAPIKey :: string
  CustomModelName :: string
  InitialBalance :: real
  ScanIntervalMinutes :: int
  Enabled :: bool

text \<open>
  \<open>db.TraderDoc\<close>, without the store's own \<open>_id\<close> and time stamps, which the reload
  handler never reads. Fields are prefixed where the Go name is also a field of
  \<open>TraderConfig\<close>.
\<close>

record TraderDoc =
  TraderID :: string
  doc_Name :: string
  doc_AIModel :: string
  doc_Exchange :: string
  doc_BinanceAPIKey :: string
  doc_BinanceSecretKey :: string
  doc_BinanceTestnet :: bool
  HyperliquidPrivate :: string
  doc_HyperliquidTestnet :: bool
  doc_AsterUser :: string
  doc_AsterSigner :: string
  doc_AsterPrivateKey :: string
  doc_QwenKey :: string
  doc_DeepSeekKey :: string
  doc_CustomAPIURL :: string
  doc_CustomAPIKey :: string
  doc_CustomModelName :: string
  doc_InitialBalance :: real
  ScanIntervalMin :: int
  doc_Enabled :: bool

definition ToConfig :: "TraderDoc \<Rightarrow> TraderConfig" where
  "ToConfig td =
     \<lparr>ID = TraderID td,
      Name = doc_Name td,
      AIModel = doc_AIModel td,
      Exchange = doc_Exchange td,
      BinanceAPIKey = doc_BinanceAPIKey td,
      BinanceSecretKey = doc_BinanceSecretKey td,
      BinanceTestnet = doc_BinanceTestnet td,
      HyperliquidPrivateKey = HyperliquidPrivate td,
      HyperliquidTestnet = doc_HyperliquidTestnet td,
      AsterUser = doc_AsterUser td,
      AsterSigner = doc_AsterSigner td,
      AsterPrivateKey = doc_AsterPrivateKey td,
      QwenKey = doc_QwenKey td,
      DeepSeekKey = doc_DeepSeekKey td,
      CustomAPIURL = doc_CustomAPIURL td,
      CustomAPIKey = doc_CustomAPIKey td,
      CustomModelName = doc_CustomModelName td,
      InitialBalance = doc_InitialBalance td,
      ScanIntervalMinutes = ScanIntervalMin td,
      Enabled = doc_Enabled td\<rparr>"

text \<open>\<open>config.Config\<close> and \<open>config.LeverageConfig\<close>, as far as the reload handler fills them.\<close>

record LeverageConfig =
  BTCETHLeverage :: int
  AltcoinLeverage :: int

record config_Config =
  UseDefaultCoins :: bool
  CoinPoolAPIURL :: string
  OITopAPIURL :: string
  MaxDailyLoss :: real
  MaxDrawdown :: real
  StopTradingMinutes :: int
  Leverage :: LeverageConfig


section \<open>Package manager: the fleet registry\<close>

text \<open>
  A worker handle: its configuration, the live trading switch, and whether its task runs.
\<close>

record AutoTrader =
  config :: TraderConfig
  tradingEnabled :: bool
  running :: bool

definition GetID :: "AutoTrader \<Rightarrow> string" where
  "GetID t = ID (config t)"

text \<open>
  The registry is a collection of handles keyed by identifier. It is kept as a list, looked
  up by \<open>GetID\<close>; the order of the list stands for the order in which Go happens to range
  over the map, which the source leaves open and no result below depends on.
\<close>

type_synonym TraderManager = "AutoTrader list"

datatype registry_error = DuplicateIdentifier | InvalidConfig | NotFound

text \<open>
  What the registry's description leaves open: which configurations \<open>Add\<close> rejects for
  missing required fields, and the value of the trading switch of a fresh handle.
\<close>

record registry_env =
  required_fields_present :: "TraderConfig \<Rightarrow> bool"
  initial_enabled :: "TraderConfig \<Rightarrow> bool"

definition traderIDs :: "TraderManager \<Rightarrow> string set" where
  "traderIDs tm = set (map GetID tm)"

text \<open>
  Modelled from the spec: \<open>manager.TraderManager.GetAllTraders\<close> is missing from the
  sources; it is the spec's \<open>List\<close>, a copy of the collection.
\<close>

definition GetAllTraders :: "TraderManager \<Rightarrow> AutoTrader list" where
  "GetAllTraders tm = tm"

text \<open>
  Modelled from the spec: \<open>manager.TraderManager.GetTrader\<close> is missing from the sources;
  it is the spec's \<open>Get\<close>: the handle, or \<open>NotFound\<close>.
\<close>

definition GetTrader :: "string \<Rightarrow> TraderManager \<Rightarrow> registry_error + AutoTrader" where
  "GetTrader traderID tm =
     (case find (\<lambda>t. GetID t = traderID) tm of None \<Rightarrow> Inl NotFound | Some t \<Rightarrow> Inr t)"

text \<open>
  Modelled from the spec: \<open>manager.TraderManager.AddTrader\<close> is missing from the sources;
  it is the spec's \<open>Add\<close>: \<open>DuplicateIdentifier\<close> if a handle with that identifier exists,
  \<open>InvalidConfig\<close> if required fields are missing, otherwise a handle is registered whose
  task is not started yet. The five further arguments are the ones the handler passes.
\<close>

definition AddTrader ::
  "registry_env \<Rightarrow> TraderConfig \<Rightarrow> string \<Rightarrow> real \<Rightarrow> real \<Rightarrow> int \<Rightarrow> LeverageConfig \<Rightarrow>
   TraderManager \<Rightarrow> registry_error + TraderManager" where
  "AddTrader env cfg coinPoolURL maxDailyLoss maxDrawdown stopTradingMinutes leverage tm =
     (if ID cfg \<in> traderIDs tm then Inl DuplicateIdentifier
      else if \<not> required_fields_present env cfg then Inl InvalidConfig
      else Inr (tm @ [\<lparr>config = cfg, tradingEnabled = initial_enabled env cfg, running = False\<rparr>]))"

text \<open>
  Modelled from the spec: \<open>manager.TraderManager.RemoveTrader\<close> is missing from the
  sources; it is the spec's \<open>Remove\<close>: \<open>NotFound\<close> if absent, otherwise the handle's task
  is told to stop and the handle is evicted.
\<close>

definition RemoveTrader :: "string \<Rightarrow> TraderManager \<Rightarrow> registry_error + TraderManager" where
  "RemoveTrader traderID tm =
     (if traderID \<notin> traderIDs tm then Inl NotFound
      else Inr (filter (\<lambda>t. GetID t \<noteq> traderID) tm))"

text \<open>
  Modelled from the spec: \<open>manager.TraderManager.SetTradingEnabled\<close> is missing from the
  sources; it is the spec's \<open>SetEnabled\<close>: \<open>NotFound\<close> if absent, otherwise the flag is
  flipped in place.
\<close>

definition SetTradingEnabled ::
  "string \<Rightarrow> bool \<Rightarrow> TraderManager \<Rightarrow> registry_error + TraderManager" where
  "SetTradingEnabled traderID enabled tm =
     (if traderID \<notin> traderIDs tm then Inl NotFound
      else Inr (map (\<lambda>t. if GetID t = traderID then t\<lparr>tradingEnabled := enabled\<rparr> else t) tm))"

text \<open>
  Modelled from the spec: \<open>AutoTrader.Run\<close> is missing from the sources; \<open>go trader.Run()\<close>
  starts the task of the handle, which is all the registry sees of it.
\<close>

definition Run :: "string \<Rightarrow> TraderManager \<Rightarrow> TraderManager" where
  "Run traderID tm = map (\<lambda>t. if GetID t = traderID then t\<lparr>running := True\<rparr> else t) tm"


section \<open>Package api: the reload handler (api/server.go, handleAdminReload)\<close>

text \<open>
  The registry calls one pass makes, in order, each with the error it came back with
  (\<open>None\<close> is nil).
\<close>

datatype call =
    Called_RemoveTrader string "registry_error option"
  | Called_AddTrader TraderConfig "registry_error option"
  | Called_SetTradingEnabled string bool "registry_error option"

record pass =
  manager :: TraderManager
  trace :: "call list"

text \<open>
  How a request ends: a 500 with an error text, a 200 with the three counts
  (\<open>added_count\<close>, \<open>removed_count\<close>, \<open>synced_switch\<close>), or a run-time panic of the handler
  (a nil pointer dereference): the handler stops there and writes nothing itself (the
  recovery middleware of \<open>gin.Default()\<close> is what answers the request).
\<close>

datatype response =
    StatusInternalServerError string
  | StatusOK nat nat nat
  | Panicked

definition msg_load_failed :: string where
  "msg_load_failed = [CHR 0xE4, CHR 0xBB, CHR 0x8E, CHR 0xE6, CHR 0x95, CHR 0xB0, CHR 0xE6,
     CHR 0x8D, CHR 0xAE, CHR 0xE5, CHR 0xBA, CHR 0x93, CHR 0xE5, CHR 0x8A, CHR 0xA0, CHR 0xE8,
     CHR 0xBD, CHR 0xBD, CHR 0xE4, CHR 0xBA, CHR 0xA4, CHR 0xE6, CHR 0x98, CHR 0x93, CHR 0xE8,
     CHR 0x80, CHR 0x85, CHR 0xE5, CHR 0xA4, CHR 0xB1, CHR 0xE8, CHR 0xB4, CHR 0xA5] @ '': ''"

text \<open>Reading a Go \<open>map[string]bool\<close>: a missing key reads as \<open>false\<close>.\<close>

definition index_bool :: "(string \<rightharpoonup> bool) \<Rightarrow> string \<Rightarrow> bool" where
  "index_bool m k = (case m k of Some b \<Rightarrow> b | None \<Rightarrow> False)"

text \<open>The two loops that fill \<open>currentTraderIDs\<close> and \<open>dbTraderIDs\<close>, and the one for \<open>dbEnabled\<close>.\<close>

definition mark_ids :: "string list \<Rightarrow> (string \<rightharpoonup> bool)" where
  "mark_ids ids = fold (\<lambda>traderID m. m(traderID \<mapsto> True)) ids Map.empty"

definition collect_enabled :: "TraderDoc list \<Rightarrow> (string \<rightharpoonup> bool)" where
  "collect_enabled tradersFromDB = fold (\<lambda>td m. m(TraderID td \<mapsto> doc_Enabled td)) tradersFromDB Map.empty"

text \<open>
  The removal loop ranges over the keys of \<open>currentTraderIDs\<close>, each key once (the
  handler passes them as \<open>remdups\<close> of the live identifiers); a failed removal is logged
  and skipped (\<open>continue\<close>).
\<close>

fun remove_loop :: "(string \<rightharpoonup> bool) \<Rightarrow> string list \<Rightarrow> nat \<Rightarrow> pass \<Rightarrow> nat \<times> pass" where
  "remove_loop dbTraderIDs [] removedCount p = (removedCount, p)"
| "remove_loop dbTraderIDs (traderID # rest) removedCount p =
     (if \<not> index_bool dbTraderIDs traderID then
        (case RemoveTrader traderID (manager p) of
           Inl err \<Rightarrow>
             remove_loop dbTraderIDs rest removedCount
               (p\<lparr>trace := trace p @ [Called_RemoveTrader traderID (Some err)]\<rparr>)
         | Inr tm \<Rightarrow>
             remove_loop dbTraderIDs rest (removedCount + 1)
               \<lparr>manager = tm, trace = trace p @ [Called_RemoveTrader traderID None]\<rparr>)
      else remove_loop dbTraderIDs rest removedCount p)"

text \<open>
  The pointer \<open>globalConfig\<close> inside the addition loop: set only when \<open>currentTraders\<close> is
  not empty, nil (\<open>None\<close>) otherwise.
\<close>

definition globalConfig_of :: "AutoTrader list \<Rightarrow> config_Config option" where
  "globalConfig_of currentTraders =
     (if length currentTraders > 0
      then Some \<lparr>UseDefaultCoins = True, CoinPoolAPIURL = '''', OITopAPIURL = '''',
                 MaxDailyLoss = 1 / 10, MaxDrawdown = 2 / 10, StopTradingMinutes = 60,
                 Leverage = \<lparr>BTCETHLeverage = 5, AltcoinLeverage = 5\<rparr>\<rparr>
      else None)"

text \<open>
  The addition loop. Reading a field through the nil \<open>globalConfig\<close> panics before
  \<open>AddTrader\<close> is called: the loop then ends with \<open>None\<close> and the state reached so far.
  A failed addition is logged and skipped; the counter goes up only when the new handle is
  found again and its task started.
\<close>

fun add_loop ::
  "registry_env \<Rightarrow> AutoTrader list \<Rightarrow> (string \<rightharpoonup> bool) \<Rightarrow> TraderDoc list \<Rightarrow> nat \<Rightarrow> pass \<Rightarrow>
   nat option \<times> pass" where
  "add_loop env currentTraders currentTraderIDs [] addedCount p = (Some addedCount, p)"
| "add_loop env currentTraders currentTraderIDs (traderDoc # rest) addedCount p =
     (if \<not> index_bool currentTraderIDs (TraderID traderDoc) then
        (case globalConfig_of currentTraders of
           None \<Rightarrow> (None, p)
         | Some globalConfig \<Rightarrow>
             (case AddTrader env (ToConfig traderDoc) (CoinPoolAPIURL globalConfig)
                     (MaxDailyLoss globalConfig) (MaxDrawdown globalConfig)
                     (StopTradingMinutes globalConfig) (Leverage globalConfig) (manager p) of
                Inl err \<Rightarrow>
                  add_loop env currentTraders currentTraderIDs rest addedCount
                    (p\<lparr>trace := trace p @ [Called_AddTrader (ToConfig traderDoc) (Some err)]\<rparr>)
              | Inr tm \<Rightarrow>
                  (case GetTrader (TraderID traderDoc) tm of
                     Inr trader \<Rightarrow>
                       add_loop env currentTraders currentTraderIDs rest (addedCount + 1)
                         \<lparr>manager = Run (TraderID traderDoc) tm,
                          trace = trace p @ [Called_AddTrader (ToConfig traderDoc) None]\<rparr>
                   | Inl err \<Rightarrow>
                       add_loop env currentTraders currentTraderIDs rest addedCount
                         \<lparr>manager = tm,
                          trace = trace p @ [Called_AddTrader (ToConfig traderDoc) None]\<rparr>)))
      else add_loop env currentTraders currentTraderIDs rest addedCount p)"

text \<open>
  The switch loop ranges over a fresh \<open>GetAllTraders()\<close>; the error of
  \<open>SetTradingEnabled\<close> is dropped and the counter goes up either way.
\<close>

fun sync_loop :: "(string \<rightharpoonup> bool) \<Rightarrow> AutoTrader list \<Rightarrow> nat \<Rightarrow> pass \<Rightarrow> nat \<times> pass" where
  "sync_loop dbEnabled [] synced p = (synced, p)"
| "sync_loop dbEnabled (t # ts) synced p =
     (case dbEnabled (GetID t) of
        Some v \<Rightarrow>
          (case SetTradingEnabled (GetID t) v (manager p) of
             Inl err \<Rightarrow>
               sync_loop dbEnabled ts (synced + 1)
                 (p\<lparr>trace := trace p @ [Called_SetTradingEnabled (GetID t) v (Some err)]\<rparr>)
           | Inr tm \<Rightarrow>
               sync_loop dbEnabled ts (synced + 1)
                 \<lparr>manager = tm, trace = trace p @ [Called_SetTradingEnabled (GetID t) v None]\<rparr>)
      | None \<Rightarrow> sync_loop dbEnabled ts synced p)"

text \<open>
  The handler, given what \<open>db.ListTraders\<close> returned and the registry; it yields the
  response, the registry calls made, and the registry afterwards.
\<close>

definition handleAdminReload ::
  "registry_env \<Rightarrow> error + TraderDoc list \<Rightarrow> TraderManager \<Rightarrow> response \<times> call list \<times> TraderManager" where
  "handleAdminReload env listed tm =
     (case listed of
        Inl err \<Rightarrow> (StatusInternalServerError (msg_load_failed @ Error err), [], tm)
      | Inr tradersFromDB \<Rightarrow>
          (let currentTraders = GetAllTraders tm;
               currentTraderIDs = mark_ids (map GetID currentTraders);
               dbTraderIDs = mark_ids (map TraderID tradersFromDB);
               (removedCount, p1) =
                 remove_loop dbTraderIDs (remdups (map GetID currentTraders)) 0
                   \<lparr>manager = tm, trace = []\<rparr>
           in case add_loop env currentTraders currentTraderIDs tradersFromDB 0 p1 of
                (None, p2) \<Rightarrow> (Panicked, trace p2, manager p2)
              | (Some addedCount, p2) \<Rightarrow>
                  (let dbEnabled = collect_enabled tradersFromDB;
                       (synced, p3) = sync_loop dbEnabled (GetAllTraders (manager p2)) 0 p2
                   in (StatusOK addedCount removedCount synced, trace p3, manager p3))))"


section \<open>Vocabulary for stating the properties of one pass\<close>

text \<open>The identifiers of the snapshot: the desired set.\<close>

definition desiredIDs :: "TraderDoc list \<Rightarrow> string set" where
  "desiredIDs tradersFromDB = set (map TraderID tradersFromDB)"

text \<open>
  The calls of one kind in a trace, in order: the identifier passed and the error returned
  (for \<open>AddTrader\<close> the identifier is that of the configuration passed), or the identifier
  and the value passed to \<open>SetTradingEnabled\<close>.
\<close>

fun removal_calls :: "call list \<Rightarrow> (string \<times> registry_error option) list" where
  "removal_calls [] = []"
| "removal_calls (Called_RemoveTrader k e # cs) = (k, e) # removal_calls cs"
| "removal_calls (c # cs) = removal_calls cs"

fun addition_calls :: "call list \<Rightarrow> (string \<times> registry_error option) list" where
  "addition_calls [] = []"
| "addition_calls (Called_AddTrader cfg e # cs) = (ID cfg, e) # addition_calls cs"
| "addition_calls (c # cs) = addition_calls cs"

fun switch_calls :: "call list \<Rightarrow> (string \<times> bool) list" where
  "switch_calls [] = []"
| "switch_calls (Called_SetTradingEnabled k v e # cs) = (k, v) # switch_calls cs"
| "switch_calls (c # cs) = switch_calls cs"

text \<open>The identifiers of the calls that returned an error, and of those that did not.\<close>

definition failed :: "(string \<times> registry_error option) list \<Rightarrow> string list" where
  "failed cs = map fst (filter (\<lambda>(k, e). e \<noteq> None) cs)"

definition succeeded :: "(string \<times> registry_error option) list \<Rightarrow> string list" where
  "succeeded cs = map fst (filter (\<lambda>(k, e). e = None) cs)"

text \<open>
  The three parts of the difference between registry and snapshot: the live identifiers
  that are not desired, the live handles that are, and the records that are not live.
\<close>

definition stale :: "TraderManager \<Rightarrow> TraderDoc list \<Rightarrow> string list" where
  "stale tm ds = filter (\<lambda>k. k \<notin> desiredIDs ds) (map GetID tm)"

definition kept :: "TraderManager \<Rightarrow> TraderDoc list \<Rightarrow> AutoTrader list" where
  "kept tm ds = filter (\<lambda>t. GetID t \<in> desiredIDs ds) tm"

definition fresh_docs :: "TraderManager \<Rightarrow> TraderDoc list \<Rightarrow> TraderDoc list" where
  "fresh_docs tm ds = filter (\<lambda>td. TraderID td \<notin> traderIDs tm) ds"

text \<open>
  The handle a record gives rise to once added and started, whether the registry accepts
  the record, and a handle after the switch loop.
\<close>

definition fresh_trader :: "registry_env \<Rightarrow> TraderDoc \<Rightarrow> AutoTrader" where
  "fresh_trader env td =
     \<lparr>config = ToConfig td, tradingEnabled = initial_enabled env (ToConfig td), running = True\<rparr>"

definition accepted :: "registry_env \<Rightarrow> TraderDoc \<Rightarrow> bool" where
  "accepted env td = required_fields_present env (ToConfig td)"

definition switch_to :: "(string \<rightharpoonup> bool) \<Rightarrow> AutoTrader \<Rightarrow> AutoTrader" where
  "switch_to dbEnabled t =
     (case dbEnabled (GetID t) of Some v \<Rightarrow> t\<lparr>tradingEnabled := v\<rparr> | None \<Rightarrow> t)"


section \<open>Concrete inputs\<close>

text \<open>
  A client with a key set and one without; three worlds: one where every send ends in an
  unexpected EOF, one that answers 401, one that answers 200 with no completion.
\<close>

definition example_config :: Config where
  "example_config = initial_defaultConfig\<lparr>APIKey := ''sk-test''\<rparr>"

definition example_mcp :: mcp where
  "example_mcp = \<lparr>defaultConfig = example_config, attempts = 0, slept = []\<rparr>"

definition unset_mcp :: mcp where
  "unset_mcp = \<lparr>defaultConfig = initial_defaultConfig, attempts = 0, slept = []\<rparr>"

definition no_completion :: completion where
  "no_completion = \<lparr>Choices = [], TotalTokens = 0\<rparr>"

definition world_eof :: world where
  "world_eof = \<lparr>wire = (\<lambda>n req. DoFails (Errorf ''unexpected EOF'')),
                 Unmarshal = (\<lambda>body. Inr no_completion)\<rparr>"

definition world_unauthorized :: world where
  "world_unauthorized = \<lparr>wire = (\<lambda>n req. Reply 401 ''bad key''),
                          Unmarshal = (\<lambda>body. Inr no_completion)\<rparr>"

definition world_empty :: world where
  "world_empty = \<lparr>wire = (\<lambda>n req. Reply 200 ''{}''),
                   Unmarshal = (\<lambda>body. Inr no_completion)\<rparr>"

text \<open>
  Records and live traders by identifier and name; a registry that accepts every
  configuration and one that rejects an empty name; the snapshot A (enabled),
  B (disabled), the same with a nameless Z, and the live traders B (under an older name)
  and C.
\<close>

definition example_doc :: "string \<Rightarrow> string \<Rightarrow> bool \<Rightarrow> TraderDoc" where
  "example_doc traderID name enabled =
     \<lparr>TraderID = traderID, doc_Name = name, doc_AIModel = ''deepseek'', doc_Exchange = ''binance'',
      doc_BinanceAPIKey = ''key'', doc_BinanceSecretKey = ''secret'', doc_BinanceTestnet = True,
      HyperliquidPrivate = '''', doc_HyperliquidTestnet = False, doc_AsterUser = '''',
      doc_AsterSigner = '''', doc_AsterPrivateKey = '''', doc_QwenKey = '''',
      doc_DeepSeekKey = ''sk'', doc_CustomAPIURL = '''', doc_CustomAPIKey = '''',
      doc_CustomModelName = '''', doc_InitialBalance = 1000, ScanIntervalMin = 3,
      doc_Enabled = enabled\<rparr>"

definition live_trader :: "TraderDoc \<Rightarrow> bool \<Rightarrow> AutoTrader" where
  "live_trader td enabled = \<lparr>config = ToConfig td, tradingEnabled = enabled, running = True\<rparr>"

definition accept_all :: registry_env where
  "accept_all = \<lparr>required_fields_present = (\<lambda>cfg. True), initial_enabled = Enabled\<rparr>"

definition named_only :: registry_env where
  "named_only = \<lparr>required_fields_present = (\<lambda>cfg. Name cfg \<noteq> ''''), initial_enabled = Enabled\<rparr>"

definition example_desired :: "TraderDoc list" where
  "example_desired = [example_doc ''A'' ''alpha'' True, example_doc ''B'' ''beta'' False]"

definition example_desired_with_reject :: "TraderDoc list" where
  "example_desired_with_reject = example_desired @ [example_doc ''Z'' '''' True]"

definition example_live :: TraderManager where
  "example_live = [live_trader (example_doc ''B'' ''old beta'' True) True,
                   live_trader (example_doc ''C'' ''gamma'' True) True]"


section \<open>The invocation client: lemmas\<close>

lemma Contains_iff: "Contains s sub \<longleftrightarrow> (\<exists>pre suf. s = pre @ sub @ suf)"
proof (induction s)
  case Nil
  then show ?case by auto
next
  case (Cons c cs)
  show ?case
  proof
    assume "Contains (c # cs) sub"
    then consider "prefix sub (c # cs)" | "Contains cs sub" by auto
    then show "\<exists>pre suf. c # cs = pre @ sub @ suf"
    proof cases
      case 1
      then obtain suf where "c # cs = sub @ suf" by (auto simp: prefix_def)
      then have "c # cs = [] @ sub @ suf" by simp
      then show ?thesis by blast
    next
      case 2
      with Cons.IH obtain pre suf where "cs = pre @ sub @ suf" by blast
      then have "c # cs = (c # pre) @ sub @ suf" by simp
      then show ?thesis by blast
    qed
  next
    assume "\<exists>pre suf. c # cs = pre @ sub @ suf"
    then obtain pre suf where e: "c # cs = pre @ sub @ suf" by blast
    show "Contains (c # cs) sub"
    proof (cases pre)
      case Nil
      with e have "prefix sub (c # cs)" by (simp add: prefix_def)
      then show ?thesis by simp
    next
      case (Cons p ps)
      with e have "cs = ps @ sub @ suf" by simp
      with Cons.IH have "Contains cs sub" by blast
      then show ?thesis by simp
    qed
  qed
qed

text \<open>An error is retryable exactly when its description contains one of the six indicators.\<close>

lemma isRetryableError_iff:
  "isRetryableError err \<longleftrightarrow>
     (\<exists>indicator \<in> set retryableErrors. \<exists>pre suf. Error err = pre @ indicator @ suf)"
  by (simp add: isRetryableError_def list_ex_iff Contains_iff)

lemma Sprintf_d_maxRetries: "Sprintf_d (int maxRetries) = ''3''"
  by (simp add: Sprintf_d_def maxRetries_def decimal.simps digit_def)

lemma callOnce_outcome_at:
  "callOnce w cfg s u st = (outcome_at w cfg s u (attempts st), st\<lparr>attempts := Suc (attempts st)\<rparr>)"
  by (simp add: callOnce_def outcome_at_def)

text \<open>The loop, unfolded once at its entry.\<close>

lemma retry_loop_unfold:
  "retry_loop w s u attempt lastErr st =
     (if attempt \<le> maxRetries then
        (case outcome_at w (defaultConfig st) s u (attempts st) of
           Inr result \<Rightarrow> (Inr result, st\<lparr>attempts := Suc (attempts st)\<rparr>)
         | Inl err \<Rightarrow>
             if \<not> isRetryableError err then (Inl err, st\<lparr>attempts := Suc (attempts st)\<rparr>)
             else retry_loop w s u (attempt + 1) (Some err)
                    (if attempt < maxRetries
                     then st\<lparr>attempts := Suc (attempts st),
                             slept := slept st @ [int attempt * 2 * Second]\<rparr>
                     else st\<lparr>attempts := Suc (attempts st)\<rparr>))
      else
        (Inl (case lastErr of
                Some err \<Rightarrow> GoError (msg_retry_pre @ ''3'' @ msg_retry_post @ Error err) (Some err)
              | None \<Rightarrow> Errorf (msg_retry_pre @ ''3'' @ msg_retry_post @ ''%!w(<nil>)'')),
         st))"
  by (subst retry_loop.simps)
     (simp add: callOnce_outcome_at Sleep_def Errorf_w_def Sprintf_d_maxRetries
           split: sum.splits option.splits)

lemma first_attempt_permanent:
  assumes "outcome_at w (defaultConfig st) s u (attempts st) = Inl err"
    and "\<not> isRetryableError err"
  shows "retry_loop w s u (Suc 0) lastErr st = (Inl err, st\<lparr>attempts := Suc (attempts st)\<rparr>)"
  using assms by (subst retry_loop_unfold) (simp add: maxRetries_def)

lemma eof_outcome:
  "outcome_at world_eof cfg s u n = Inl (Errorf_w msg_send (Errorf ''unexpected EOF''))"
  by (simp add: outcome_at_def world_eof_def read_exchange_def)

lemma eof_retryable: "isRetryableError (Errorf_w msg_send (Errorf ''unexpected EOF''))"
  by (simp add: isRetryableError_def Errorf_def Errorf_w_def msg_send_def retryableErrors_def)

lemma example_key: "APIKey (defaultConfig example_mcp) \<noteq> ''''"
  by (simp add: example_mcp_def example_config_def)

lemma empty_response_not_retryable: "\<not> isRetryableError (Errorf msg_empty_response)"
  by (simp add: isRetryableError_def Errorf_def msg_empty_response_def retryableErrors_def)

section \<open>The invocation client: claims\<close>

text \<open>
  C5. When the three attempts that \<open>CallWithMessages\<close> makes all fail with a retryable
  error, it makes exactly three attempts (waiting 2 s after the first and 4 s after the
  second) and returns an error that wraps the error of the third attempt, its description
  naming the count 3 before the description of that error.
\<close>

theorem retry_ceiling:
  assumes "APIKey (defaultConfig st) \<noteq> ''''"
    and "outcome_at w (defaultConfig st) s u (attempts st) = Inl e1" "isRetryableError e1"
    and "outcome_at w (defaultConfig st) s u (attempts st + 1) = Inl e2" "isRetryableError e2"
    and "outcome_at w (defaultConfig st) s u (attempts st + 2) = Inl e3" "isRetryableError e3"
  shows "CallWithMessages w s u st =
           (Inl (GoError (msg_retry_pre @ ''3'' @ msg_retry_post @ Error e3) (Some e3)),
            st\<lparr>attempts := attempts st + 3, slept := slept st @ [2 * Second, 4 * Second]\<rparr>)"
  using assms
  apply (simp add: CallWithMessages_def)
  apply (subst retry_loop_unfold)
  apply (simp add: maxRetries_def)
  apply (subst retry_loop_unfold)
  apply (simp add: maxRetries_def)
  apply (subst retry_loop_unfold)
  apply (simp add: maxRetries_def)
  apply (subst retry_loop_unfold)
  apply (simp add: maxRetries_def)
  done

theorem retry_ceiling_witness:
  "CallWithMessages world_eof ''system'' ''user'' example_mcp =
     (Inl (GoError (msg_retry_pre @ ''3'' @ msg_retry_post @ msg_send @ ''unexpected EOF'')
             (Some (Errorf_w msg_send (Errorf ''unexpected EOF'')))),
      \<lparr>defaultConfig = example_config, attempts = 3, slept = [2 * Second, 4 * Second]\<rparr>)"
  using retry_ceiling [OF example_key eof_outcome eof_retryable eof_outcome eof_retryable
      eof_outcome eof_retryable, of "''system''" "''user''"]
  by (simp add: example_mcp_def Errorf_w_def Errorf_def)

text \<open>
  C6. When the first attempt fails with an error that is not retryable (by
  \<open>isRetryableError_iff\<close>: its description contains none of the six indicators),
  \<open>CallWithMessages\<close> returns that very error after one attempt and without any wait.
\<close>

theorem permanent_error_is_returned_at_once:
  assumes "APIKey (defaultConfig st) \<noteq> ''''"
    and "outcome_at w (defaultConfig st) s u (attempts st) = Inl err"
    and "\<not> isRetryableError err"
  shows "CallWithMessages w s u st = (Inl err, st\<lparr>attempts := Suc (attempts st)\<rparr>)"
  using assms
  by (simp add: CallWithMessages_def first_attempt_permanent)

lemma unauthorized_outcome:
  "outcome_at world_unauthorized cfg s u n = Inl (Errorf (msg_status @ ''401): bad key''))"
  by (simp add: outcome_at_def world_unauthorized_def read_exchange_def http_StatusOK_def
      Sprintf_d_def decimal.simps digit_def)

lemma unauthorized_not_retryable: "\<not> isRetryableError (Errorf (msg_status @ ''401): bad key''))"
  by (simp add: isRetryableError_def Errorf_def msg_status_def retryableErrors_def)

theorem permanent_error_is_returned_at_once_witness:
  "CallWithMessages world_unauthorized ''system'' ''user'' example_mcp =
     (Inl (Errorf (msg_status @ ''401): bad key'')),
      \<lparr>defaultConfig = example_config, attempts = 1, slept = []\<rparr>)"
  using permanent_error_is_returned_at_once
    [OF example_key unauthorized_outcome unauthorized_not_retryable, of "''system''" "''user''"]
  by (simp add: example_mcp_def)

text \<open>
  C7. A 200 response whose completion list is empty makes \<open>callOnce\<close> fail with the
  empty-response error. That error is not retryable, so \<open>CallWithMessages\<close> returns it
  after one attempt and without any wait; and it differs from every error \<open>callOnce\<close>
  returns when building, sending or reading the request failed.
\<close>

theorem empty_completion_list_is_surfaced:
  assumes "APIKey (defaultConfig st) \<noteq> ''''"
    and "wire w (attempts st) (build_request (defaultConfig st) s u) = Reply http_StatusOK body"
    and "Unmarshal w body = Inr result"
    and "Choices result = []"
  shows "CallWithMessages w s u st =
           (Inl (Errorf msg_empty_response), st\<lparr>attempts := Suc (attempts st)\<rparr>)
         \<and> \<not> isRetryableError (Errorf msg_empty_response)
         \<and> (\<forall>err. read_exchange w (DoFails err) \<noteq> Inl (Errorf msg_empty_response))
         \<and> (\<forall>err. read_exchange w (ReadAllFails err) \<noteq> Inl (Errorf msg_empty_response))
         \<and> (\<forall>err. read_exchange w (NewRequestFails err) \<noteq> Inl (Errorf msg_empty_response))
         \<and> (\<forall>err. read_exchange w (MarshalFails err) \<noteq> Inl (Errorf msg_empty_response))"
proof -
  have "outcome_at w (defaultConfig st) s u (attempts st) = Inl (Errorf msg_empty_response)"
    using assms by (simp add: outcome_at_def read_exchange_def)
  with assms(1) have "CallWithMessages w s u st =
      (Inl (Errorf msg_empty_response), st\<lparr>attempts := Suc (attempts st)\<rparr>)"
    using empty_response_not_retryable
    by (simp add: CallWithMessages_def first_attempt_permanent)
  moreover have "\<forall>pre err. Errorf_w pre err \<noteq> Errorf msg_empty_response"
    by (simp add: Errorf_w_def Errorf_def)
  ultimately show ?thesis
    using empty_response_not_retryable by (simp add: read_exchange_def)
qed

theorem empty_completion_list_is_surfaced_witness:
  "CallWithMessages world_empty ''system'' ''user'' example_mcp =
     (Inl (Errorf msg_empty_response), \<lparr>defaultConfig = example_config, attempts = 1, slept = []\<rparr>)
   \<and> \<not> isRetryableError (Errorf msg_empty_response)
   \<and> read_exchange world_empty (DoFails (Errorf ''unexpected EOF'')) \<noteq> Inl (Errorf msg_empty_response)"
proof -
  have 1: "wire world_empty (attempts example_mcp)
             (build_request (defaultConfig example_mcp) ''system'' ''user'') = Reply http_StatusOK ''{}''"
    by (simp add: world_empty_def http_StatusOK_def)
  have 2: "Unmarshal world_empty ''{}'' = Inr no_completion"
    by (simp add: world_empty_def)
  have 3: "Choices no_completion = []"
    by (simp add: no_completion_def)
  show ?thesis
    using empty_completion_list_is_surfaced [OF example_key 1 2 3]
    by (simp add: example_mcp_def)
qed

text \<open>
  C8. With no API key in the shared configuration, \<open>CallWithMessages\<close> fails at once with
  the error that says the key is not set: no attempt is made and nothing is waited for.
\<close>

theorem missing_key_fails_without_attempt:
  assumes "APIKey (defaultConfig st) = ''''"
  shows "CallWithMessages w s u st = (Inl (Errorf msg_no_key_default), st)"
  using assms by (simp add: CallWithMessages_def)

theorem missing_key_fails_without_attempt_witness:
  "CallWithMessages world_eof ''system'' ''user'' unset_mcp =
     (Inl (Errorf msg_no_key_default),
      \<lparr>defaultConfig = initial_defaultConfig, attempts = 0, slept = []\<rparr>)"
proof -
  have "APIKey (defaultConfig unset_mcp) = ''''"
    by (simp add: unset_mcp_def initial_defaultConfig_def)
  from missing_key_fails_without_attempt [OF this, of world_eof "''system''" "''user''"]
  show ?thesis by (simp add: unset_mcp_def)
qed

text \<open>
  C10. \<open>CallWithMessagesWithConfig\<close> fails at once, with no attempt, when the key of the
  configuration it is given is empty; otherwise it makes exactly one attempt and returns
  what that attempt returned, retryable error or not, and waits for nothing.
\<close>

theorem explicit_config_call_never_retries:
  "(APIKey cfg = '''' \<longrightarrow>
      CallWithMessagesWithConfig w cfg s u st = (Inl (Errorf msg_no_key), st))
   \<and> (APIKey cfg \<noteq> '''' \<longrightarrow>
      CallWithMessagesWithConfig w cfg s u st =
        (outcome_at w cfg s u (attempts st), st\<lparr>attempts := Suc (attempts st)\<rparr>))"
  by (simp add: CallWithMessagesWithConfig_def callOnce_outcome_at)

theorem explicit_config_call_never_retries_witness:
  "CallWithMessagesWithConfig world_eof initial_defaultConfig ''system'' ''user'' example_mcp =
     (Inl (Errorf msg_no_key), example_mcp)
   \<and> CallWithMessagesWithConfig world_eof example_config ''system'' ''user'' example_mcp =
       (Inl (Errorf_w msg_send (Errorf ''unexpected EOF'')),
        \<lparr>defaultConfig = example_config, attempts = 1, slept = []\<rparr>)
   \<and> isRetryableError (Errorf_w msg_send (Errorf ''unexpected EOF''))"
  using explicit_config_call_never_retries
    [of initial_defaultConfig world_eof "''system''" "''user''" example_mcp]
    explicit_config_call_never_retries
    [of example_config world_eof "''system''" "''user''" example_mcp]
    eof_retryable
  by (simp add: initial_defaultConfig_def example_config_def eof_outcome example_mcp_def)

section \<open>The reload handler: lemmas\<close>

lemma index_bool_fold:
  "index_bool (fold (\<lambda>traderID m. m(traderID \<mapsto> True)) ids m0) k \<longleftrightarrow> k \<in> set ids \<or> index_bool m0 k"
  by (induction ids arbitrary: m0) (auto simp: index_bool_def)

lemma index_bool_mark_ids [simp]: "index_bool (mark_ids ids) k \<longleftrightarrow> k \<in> set ids"
  unfolding mark_ids_def by (subst index_bool_fold) (simp add: index_bool_def)

lemma dom_fold_enabled:
  "dom (fold (\<lambda>td m. m(TraderID td \<mapsto> doc_Enabled td)) ds m0) = TraderID ` set ds \<union> dom m0"
  by (induction ds arbitrary: m0) auto

lemma dom_collect_enabled: "dom (collect_enabled ds) = TraderID ` set ds"
  by (simp add: collect_enabled_def dom_fold_enabled)

lemma fold_enabled_value:
  assumes "fold (\<lambda>td m. m(TraderID td \<mapsto> doc_Enabled td)) ds m0 k = Some v"
  shows "(\<exists>td \<in> set ds. TraderID td = k \<and> doc_Enabled td = v) \<or> m0 k = Some v"
  using assms
  by (induction ds arbitrary: m0) (fastforce split: if_splits)+

lemma collect_enabled_value:
  assumes "collect_enabled ds k = Some v"
  shows "\<exists>td \<in> set ds. TraderID td = k \<and> doc_Enabled td = v"
  using fold_enabled_value [of ds Map.empty k v] assms by (simp add: collect_enabled_def)

lemma GetID_switch [simp]: "GetID (t\<lparr>tradingEnabled := v\<rparr>) = GetID t"
  by (simp add: GetID_def)

lemma GetID_running [simp]: "GetID (t\<lparr>running := v\<rparr>) = GetID t"
  by (simp add: GetID_def)

lemma GetID_fresh [simp]: "GetID (fresh_trader env td) = TraderID td"
  by (simp add: GetID_def fresh_trader_def ToConfig_def)

lemma ID_ToConfig [simp]: "ID (ToConfig td) = TraderID td"
  by (simp add: ToConfig_def)

lemma traderIDs_filter: "traderIDs (filter (\<lambda>t. GetID t \<noteq> k) tm) = traderIDs tm - {k}"
  by (auto simp: traderIDs_def)

text \<open>The removal loop, when it ranges over distinct identifiers that are all registered.\<close>

lemma remove_loop_result:
  assumes "distinct ks" and "set ks \<subseteq> traderIDs (manager p)"
  shows "remove_loop db ks n p =
           (n + length (filter (\<lambda>k. \<not> index_bool db k) ks),
            \<lparr>manager = filter (\<lambda>t. GetID t \<notin> set (filter (\<lambda>k. \<not> index_bool db k) ks)) (manager p),
             trace = trace p @ map (\<lambda>k. Called_RemoveTrader k None) (filter (\<lambda>k. \<not> index_bool db k) ks)\<rparr>)"
  using assms
proof (induction ks arbitrary: n p)
  case Nil
  then show ?case by simp
next
  case (Cons k ks)
  show ?case
  proof (cases "index_bool db k")
    case True
    with Cons show ?thesis by simp
  next
    case False
    let ?p = "\<lparr>manager = filter (\<lambda>t. GetID t \<noteq> k) (manager p),
               trace = trace p @ [Called_RemoveTrader k None]\<rparr>"
    from Cons.prems have k: "k \<in> traderIDs (manager p)" and d: "distinct ks" and nk: "k \<notin> set ks"
      by auto
    from Cons.prems nk have sub: "set ks \<subseteq> traderIDs (manager ?p)"
      by (auto simp: traderIDs_filter)
    have "remove_loop db (k # ks) n p = remove_loop db ks (n + 1) ?p"
      using False k by (simp add: RemoveTrader_def)
    also note Cons.IH [OF d sub, of "n + 1"]
    finally show ?thesis
      using False by (simp add: conj_commute)
  qed
qed

lemma traderIDs_append [simp]: "traderIDs (xs @ ys) = traderIDs xs \<union> traderIDs ys"
  by (auto simp: traderIDs_def)

lemma traderIDs_switch [simp]:
  "traderIDs (map (\<lambda>x. if GetID x = k then x\<lparr>tradingEnabled := v\<rparr> else x) tm) = traderIDs tm"
  by (induction tm) (auto simp: traderIDs_def)

lemma traderIDs_single [simp]: "traderIDs [t] = {GetID t}"
  by (simp add: traderIDs_def)

lemma Run_absent: "traderID \<notin> traderIDs tm \<Longrightarrow> Run traderID tm = tm"
  by (induction tm) (auto simp: Run_def traderIDs_def)

lemma Run_append_new:
  assumes "TraderID td \<notin> traderIDs tm"
  shows "Run (TraderID td)
           (tm @ [\<lparr>config = ToConfig td, tradingEnabled = initial_enabled env (ToConfig td),
                   running = False\<rparr>]) = tm @ [fresh_trader env td]"
proof -
  have "Run (TraderID td) tm = tm"
    using assms by (rule Run_absent)
  then show ?thesis
    by (simp add: Run_def fresh_trader_def GetID_def)
qed

lemma GetTrader_present: "traderID \<in> traderIDs tm \<Longrightarrow> \<exists>t. GetTrader traderID tm = Inr t"
  by (auto simp: GetTrader_def traderIDs_def find_None_iff split: option.splits)

text \<open>
  The addition loop, when it does not meet the nil pointer: either some trader was live
  beforehand or no record is new. The new records carry distinct identifiers, none of
  them registered yet.
\<close>

lemma add_loop_result:
  assumes "cur \<noteq> [] \<or> filter (\<lambda>td. \<not> index_bool ids (TraderID td)) ds = []"
    and "distinct (map TraderID (filter (\<lambda>td. \<not> index_bool ids (TraderID td)) ds))"
    and "\<forall>td \<in> set (filter (\<lambda>td. \<not> index_bool ids (TraderID td)) ds). TraderID td \<notin> traderIDs (manager p)"
  shows "add_loop env cur ids ds n p =
           (Some (n + length (filter (accepted env) (filter (\<lambda>td. \<not> index_bool ids (TraderID td)) ds))),
            \<lparr>manager = manager p @
                 map (fresh_trader env) (filter (accepted env) (filter (\<lambda>td. \<not> index_bool ids (TraderID td)) ds)),
             trace = trace p @
                 map (\<lambda>td. Called_AddTrader (ToConfig td)
                            (if accepted env td then None else Some InvalidConfig))
                   (filter (\<lambda>td. \<not> index_bool ids (TraderID td)) ds)\<rparr>)"
  using assms
proof (induction ds arbitrary: n p)
  case Nil
  then show ?case by simp
next
  case (Cons d ds)
  let ?new = "\<lambda>td. \<not> index_bool ids (TraderID td)"
  show ?case
  proof (cases "index_bool ids (TraderID d)")
    case True
    with Cons show ?thesis by simp
  next
    case False
    with Cons.prems have cur: "cur \<noteq> []" by auto
    then obtain g where g: "globalConfig_of cur = Some g"
      by (simp add: globalConfig_of_def)
    from False Cons.prems have absent: "TraderID d \<notin> traderIDs (manager p)"
      and dist: "distinct (map TraderID (filter ?new ds))"
      and rest: "\<forall>td \<in> set (filter ?new ds). TraderID td \<notin> traderIDs (manager p)"
      by auto
    from False Cons.prems(2) have "TraderID d \<notin> set (map TraderID (filter ?new ds))"
      by simp
    then have later: "\<forall>td \<in> set (filter ?new ds). TraderID td \<noteq> TraderID d"
      by (metis image_eqI set_map)
    show ?thesis
    proof (cases "accepted env d")
      case rejected: False
      let ?p = "p\<lparr>trace := trace p @ [Called_AddTrader (ToConfig d) (Some InvalidConfig)]\<rparr>"
      have "add_loop env cur ids (d # ds) n p = add_loop env cur ids ds n ?p"
        using False g absent rejected by (simp add: AddTrader_def accepted_def)
      also have "\<dots> = (Some (n + length (filter (accepted env) (filter ?new ds))),
            \<lparr>manager = manager ?p @ map (fresh_trader env) (filter (accepted env) (filter ?new ds)),
             trace = trace ?p @
                 map (\<lambda>td. Called_AddTrader (ToConfig td)
                            (if accepted env td then None else Some InvalidConfig))
                   (filter ?new ds)\<rparr>)"
        using cur dist rest by (intro Cons.IH) simp_all
      finally show ?thesis
        using False rejected by simp
    next
      case ok: True
      let ?p = "\<lparr>manager = manager p @ [fresh_trader env d],
                 trace = trace p @ [Called_AddTrader (ToConfig d) None]\<rparr>"
      let ?tm = "manager p @ [\<lparr>config = ToConfig d,
                   tradingEnabled = initial_enabled env (ToConfig d), running = False\<rparr>]"
      have "TraderID d \<in> traderIDs ?tm"
        by (simp add: GetID_def)
      then obtain t where t: "GetTrader (TraderID d) ?tm = Inr t"
        using GetTrader_present by blast
      have "add_loop env cur ids (d # ds) n p = add_loop env cur ids ds (n + 1) ?p"
        using False g absent ok t
        by (simp add: AddTrader_def accepted_def Run_append_new [OF absent])
      also have "\<dots> = (Some (n + 1 + length (filter (accepted env) (filter ?new ds))),
            \<lparr>manager = manager ?p @ map (fresh_trader env) (filter (accepted env) (filter ?new ds)),
             trace = trace ?p @
                 map (\<lambda>td. Called_AddTrader (ToConfig td)
                            (if accepted env td then None else Some InvalidConfig))
                   (filter ?new ds)\<rparr>)"
        using cur dist rest later by (intro Cons.IH) simp_all
      finally show ?thesis
        using False ok by simp
    qed
  qed
qed

text \<open>The nil pointer is met as soon as a record is new while no trader was live.\<close>

lemma add_loop_panics:
  assumes "filter (\<lambda>td. \<not> index_bool ids (TraderID td)) ds \<noteq> []"
  shows "add_loop env [] ids ds n p = (None, p)"
  using assms
  by (induction ds arbitrary: n p) (auto simp: globalConfig_of_def)

text \<open>The switch loop over a snapshot whose traders are all still registered.\<close>

lemma sync_loop_result:
  assumes "GetID ` set ts \<subseteq> traderIDs (manager p)"
  shows "sync_loop en ts n p =
           (n + length (filter (\<lambda>t. en (GetID t) \<noteq> None) ts),
            \<lparr>manager = map (\<lambda>t. if GetID t \<in> GetID ` set ts then switch_to en t else t) (manager p),
             trace = trace p @
                 map (\<lambda>t. Called_SetTradingEnabled (GetID t) (the (en (GetID t))) None)
                   (filter (\<lambda>t. en (GetID t) \<noteq> None) ts)\<rparr>)"
  using assms
proof (induction ts arbitrary: n p)
  case Nil
  then show ?case by simp
next
  case (Cons t ts)
  show ?case
  proof (cases "en (GetID t)")
    case None
    have same: "map (\<lambda>x. if GetID x \<in> GetID ` set (t # ts) then switch_to en x else x) (manager p)
        = map (\<lambda>x. if GetID x \<in> GetID ` set ts then switch_to en x else x) (manager p)"
      using None by (auto simp: switch_to_def)
    from Cons.prems have "GetID ` set ts \<subseteq> traderIDs (manager p)" by auto
    from Cons.IH [OF this, of n] None same show ?thesis by simp
  next
    case (Some v)
    let ?tm = "map (\<lambda>x. if GetID x = GetID t then x\<lparr>tradingEnabled := v\<rparr> else x) (manager p)"
    let ?p = "\<lparr>manager = ?tm, trace = trace p @ [Called_SetTradingEnabled (GetID t) v None]\<rparr>"
    have ids: "traderIDs ?tm = traderIDs (manager p)"
      by simp
    from Cons.prems have here: "GetID t \<in> traderIDs (manager p)"
      and sub: "GetID ` set ts \<subseteq> traderIDs (manager ?p)"
      using ids by auto
    have step: "sync_loop en (t # ts) n p = sync_loop en ts (n + 1) ?p"
      using Some here by (simp add: SetTradingEnabled_def)
    have same: "map (\<lambda>x. if GetID x \<in> GetID ` set ts then switch_to en x else x) ?tm
        = map (\<lambda>x. if GetID x \<in> GetID ` set (t # ts) then switch_to en x else x) (manager p)"
      using Some by (auto simp: switch_to_def)
    from Cons.IH [OF sub, of "n + 1"] step same Some show ?thesis by simp
  qed
qed

lemma removal_calls_append [simp]: "removal_calls (xs @ ys) = removal_calls xs @ removal_calls ys"
  by (induction xs rule: removal_calls.induct) simp_all

lemma addition_calls_append [simp]: "addition_calls (xs @ ys) = addition_calls xs @ addition_calls ys"
  by (induction xs rule: addition_calls.induct) simp_all

lemma switch_calls_append [simp]: "switch_calls (xs @ ys) = switch_calls xs @ switch_calls ys"
  by (induction xs rule: switch_calls.induct) simp_all

lemma calls_of_removals [simp]:
  "removal_calls (map (\<lambda>k. Called_RemoveTrader k None) ks) = map (\<lambda>k. (k, None)) ks"
  "addition_calls (map (\<lambda>k. Called_RemoveTrader k None) ks) = []"
  "switch_calls (map (\<lambda>k. Called_RemoveTrader k None) ks) = []"
  by (induction ks) simp_all

lemma calls_of_additions [simp]:
  "removal_calls (map (\<lambda>td. Called_AddTrader (ToConfig td) (f td)) ds) = []"
  "addition_calls (map (\<lambda>td. Called_AddTrader (ToConfig td) (f td)) ds) = map (\<lambda>td. (TraderID td, f td)) ds"
  "switch_calls (map (\<lambda>td. Called_AddTrader (ToConfig td) (f td)) ds) = []"
  by (induction ds) simp_all

lemma calls_of_switches [simp]:
  "removal_calls (map (\<lambda>t. Called_SetTradingEnabled (GetID t) (g t) None) ts) = []"
  "addition_calls (map (\<lambda>t. Called_SetTradingEnabled (GetID t) (g t) None) ts) = []"
  "switch_calls (map (\<lambda>t. Called_SetTradingEnabled (GetID t) (g t) None) ts) = map (\<lambda>t. (GetID t, g t)) ts"
  by (induction ts) simp_all

text \<open>The switch loop over the registry itself, when every trader has a record.\<close>

lemma sync_loop_all:
  assumes "\<forall>t \<in> set ts. en (GetID t) \<noteq> None"
  shows "sync_loop en ts n \<lparr>manager = ts, trace = tr\<rparr> =
           (n + length ts,
            \<lparr>manager = map (switch_to en) ts,
             trace = tr @ map (\<lambda>t. Called_SetTradingEnabled (GetID t) (the (en (GetID t))) None) ts\<rparr>)"
proof -
  have hit: "filter (\<lambda>t. en (GetID t) \<noteq> None) ts = ts"
    using assms by (simp add: filter_True)
  have switched: "map (\<lambda>t. if GetID t \<in> GetID ` set ts then switch_to en t else t) ts
      = map (switch_to en) ts"
    by (rule map_cong) auto
  have "sync_loop en ts n \<lparr>manager = ts, trace = tr\<rparr> =
      (n + length (filter (\<lambda>t. en (GetID t) \<noteq> None) ts),
       \<lparr>manager = map (\<lambda>t. if GetID t \<in> GetID ` set ts then switch_to en t else t)
                    (manager \<lparr>manager = ts, trace = tr\<rparr>),
        trace = trace \<lparr>manager = ts, trace = tr\<rparr> @
                 map (\<lambda>t. Called_SetTradingEnabled (GetID t) (the (en (GetID t))) None)
                   (filter (\<lambda>t. en (GetID t) \<noteq> None) ts)\<rparr>)"
    by (rule sync_loop_result) (simp add: traderIDs_def)
  then show ?thesis
    by (simp only: pass.select_convs hit switched)
qed

text \<open>
  A pass that does not meet the nil pointer, on a registry and a snapshot without
  duplicate identifiers, in closed form.
\<close>

lemma reload_completes:
  assumes L: "distinct (map GetID tm)" and D: "distinct (map TraderID ds)"
    and nonnil: "tm \<noteq> [] \<or> ds = []"
  shows "handleAdminReload env (Inr ds) tm =
           (StatusOK (length (filter (accepted env) (fresh_docs tm ds)))
                     (length (stale tm ds))
                     (length (kept tm ds) + length (filter (accepted env) (fresh_docs tm ds))),
            map (\<lambda>k. Called_RemoveTrader k None) (stale tm ds)
              @ map (\<lambda>td. Called_AddTrader (ToConfig td)
                            (if accepted env td then None else Some InvalidConfig)) (fresh_docs tm ds)
              @ map (\<lambda>t. Called_SetTradingEnabled (GetID t) (the (collect_enabled ds (GetID t))) None)
                  (kept tm ds @ map (fresh_trader env) (filter (accepted env) (fresh_docs tm ds))),
            map (switch_to (collect_enabled ds))
              (kept tm ds @ map (fresh_trader env) (filter (accepted env) (fresh_docs tm ds))))"
proof -
  let ?p0 = "\<lparr>manager = tm, trace = []\<rparr>"
  let ?db = "mark_ids (map TraderID ds)"
  let ?ids = "mark_ids (map GetID tm)"
  let ?en = "collect_enabled ds"
  let ?acc = "filter (accepted env) (fresh_docs tm ds)"
  let ?p1 = "\<lparr>manager = kept tm ds, trace = map (\<lambda>k. Called_RemoveTrader k None) (stale tm ds)\<rparr>"
  let ?p2 = "\<lparr>manager = kept tm ds @ map (fresh_trader env) ?acc,
              trace = map (\<lambda>k. Called_RemoveTrader k None) (stale tm ds) @ map (\<lambda>td. Called_AddTrader (ToConfig td)
                            (if accepted env td then None else Some InvalidConfig)) (fresh_docs tm ds)\<rparr>"
  have gone: "filter (\<lambda>k. \<not> index_bool ?db k) (map GetID tm) = stale tm ds"
    by (simp add: stale_def desiredIDs_def)
  have keep: "filter (\<lambda>t. GetID t \<notin> set (stale tm ds)) tm = kept tm ds"
    unfolding kept_def stale_def by (rule filter_cong) auto
  have news: "filter (\<lambda>td. \<not> index_bool ?ids (TraderID td)) ds = fresh_docs tm ds"
    by (simp add: fresh_docs_def traderIDs_def)
  have "remove_loop ?db (map GetID tm) 0 ?p0 =
      (0 + length (filter (\<lambda>k. \<not> index_bool ?db k) (map GetID tm)),
       \<lparr>manager = filter (\<lambda>t. GetID t \<notin> set (filter (\<lambda>k. \<not> index_bool ?db k) (map GetID tm)))
                    (manager ?p0),
        trace = trace ?p0 @ map (\<lambda>k. Called_RemoveTrader k None)
                    (filter (\<lambda>k. \<not> index_bool ?db k) (map GetID tm))\<rparr>)"
    by (rule remove_loop_result) (use L in \<open>simp_all add: traderIDs_def\<close>)
  then have "remove_loop ?db (map GetID tm) 0 ?p0 =
      (length (stale tm ds),
       \<lparr>manager = filter (\<lambda>t. GetID t \<notin> set (stale tm ds)) tm,
        trace = map (\<lambda>k. Called_RemoveTrader k None) (stale tm ds)\<rparr>)"
    unfolding gone by simp
  then have "remove_loop ?db (map GetID tm) 0 ?p0 = (length (stale tm ds), ?p1)"
    unfolding keep .
  then have rm: "remove_loop ?db (remdups (map GetID tm)) 0 ?p0 = (length (stale tm ds), ?p1)"
    using L by (simp add: distinct_remdups_id)
  have a1: "tm \<noteq> [] \<or> filter (\<lambda>td. \<not> index_bool ?ids (TraderID td)) ds = []"
    using nonnil by auto
  have a2: "distinct (map TraderID (filter (\<lambda>td. \<not> index_bool ?ids (TraderID td)) ds))"
    using D by (rule distinct_map_filter)
  have a3: "\<forall>td \<in> set (filter (\<lambda>td. \<not> index_bool ?ids (TraderID td)) ds).
              TraderID td \<notin> traderIDs (manager ?p1)"
    by (auto simp: traderIDs_def kept_def)
  have add: "add_loop env tm ?ids ds 0 ?p1 = (Some (length ?acc), ?p2)"
    using add_loop_result [OF a1 a2 a3, of env 0] unfolding news by simp
  let ?ts = "kept tm ds @ map (fresh_trader env) ?acc"
  have "\<forall>t \<in> set ?ts. ?en (GetID t) \<noteq> None"
  proof
    fix t assume "t \<in> set ?ts"
    then have "GetID t \<in> TraderID ` set ds"
      by (auto simp: kept_def desiredIDs_def fresh_docs_def)
    then have "GetID t \<in> dom ?en"
      by (simp add: dom_collect_enabled)
    then show "?en (GetID t) \<noteq> None" by auto
  qed
  then have sync: "sync_loop ?en ?ts 0 ?p2 =
      (0 + length ?ts,
       \<lparr>manager = map (switch_to ?en) ?ts,
        trace = (map (\<lambda>k. Called_RemoveTrader k None) (stale tm ds) @
                 map (\<lambda>td. Called_AddTrader (ToConfig td)
                            (if accepted env td then None else Some InvalidConfig)) (fresh_docs tm ds))
                @ map (\<lambda>t. Called_SetTradingEnabled (GetID t) (the (?en (GetID t))) None) ?ts\<rparr>)"
    by (rule sync_loop_all)
  show ?thesis
    unfolding handleAdminReload_def
    by (simp add: GetAllTraders_def rm add sync del: remove_loop.simps add_loop.simps sync_loop.simps)
qed

text \<open>A pass on an empty registry with a non-empty snapshot meets the nil pointer at once.\<close>

lemma reload_panics:
  "handleAdminReload env (Inr (td # tds)) [] = (Panicked, [], [])"
  by (simp add: handleAdminReload_def GetAllTraders_def globalConfig_of_def mark_ids_def index_bool_def)

lemmas example_defs =
  example_doc_def live_trader_def accept_all_def named_only_def example_desired_def
  example_live_def ToConfig_def GetID_def

lemmas reload_defs =
  handleAdminReload_def GetAllTraders_def mark_ids_def collect_enabled_def index_bool_def
  RemoveTrader_def AddTrader_def traderIDs_def globalConfig_of_def GetTrader_def Run_def
  SetTradingEnabled_def

lemma example_pass:
  "handleAdminReload accept_all (Inr example_desired) example_live =
     (StatusOK 1 1 2,
      [Called_RemoveTrader ''C'' None,
       Called_AddTrader (ToConfig (example_doc ''A'' ''alpha'' True)) None,
       Called_SetTradingEnabled ''B'' False None,
       Called_SetTradingEnabled ''A'' True None],
      [live_trader (example_doc ''B'' ''old beta'' True) False,
       live_trader (example_doc ''A'' ''alpha'' True) True])"
  by (simp add: reload_defs example_defs)

lemma example_distinct:
  "distinct (map GetID example_live)" "distinct (map TraderID example_desired)"
  by (simp_all add: example_defs)

lemma example_sets:
  "traderIDs example_live = {''B'', ''C''}" "desiredIDs example_desired = {''A'', ''B''}"
  by (auto simp: example_defs traderIDs_def desiredIDs_def)

section \<open>Sets and counts of one pass\<close>

lemma set_stale: "set (stale tm ds) = traderIDs tm - desiredIDs ds"
  by (auto simp: stale_def traderIDs_def)

lemma distinct_stale: "distinct (map GetID tm) \<Longrightarrow> distinct (stale tm ds)"
  by (simp add: stale_def)

lemma ids_fresh: "set (map TraderID (fresh_docs tm ds)) = desiredIDs ds - traderIDs tm"
  by (auto simp: fresh_docs_def desiredIDs_def)

lemma distinct_fresh: "distinct (map TraderID ds) \<Longrightarrow> distinct (map TraderID (fresh_docs tm ds))"
  by (simp add: fresh_docs_def distinct_map_filter)

lemma ids_kept: "traderIDs (kept tm ds) = traderIDs tm \<inter> desiredIDs ds"
  by (auto simp: kept_def traderIDs_def)

lemma distinct_kept: "distinct (map GetID tm) \<Longrightarrow> distinct (map GetID (kept tm ds))"
  by (simp add: kept_def distinct_map_filter)

lemma length_kept:
  assumes "distinct (map GetID tm)"
  shows "length (kept tm ds) = card (traderIDs tm \<inter> desiredIDs ds)"
proof -
  have "card (set (map GetID (kept tm ds))) = length (map GetID (kept tm ds))"
    using assms by (intro distinct_card distinct_kept)
  then show ?thesis
    using ids_kept [of tm ds] by (simp add: traderIDs_def)
qed

lemma length_stale:
  assumes "distinct (map GetID tm)"
  shows "length (stale tm ds) = card (traderIDs tm - desiredIDs ds)"
  using distinct_card [OF distinct_stale [OF assms, of ds]] by (simp add: set_stale)

lemma length_fresh:
  assumes "distinct (map TraderID ds)"
  shows "length (fresh_docs tm ds) = card (desiredIDs ds - traderIDs tm)"
  using distinct_card [OF distinct_fresh [OF assms, of tm]] by (simp add: ids_fresh del: set_map)

lemma GetID_switch_to [simp]: "GetID (switch_to en t) = GetID t"
  by (simp add: switch_to_def split: option.splits)

lemma traderIDs_switch_to [simp]: "traderIDs (map (switch_to en) ts) = traderIDs ts"
  by (simp add: traderIDs_def)

lemma traderIDs_fresh_traders [simp]:
  "traderIDs (map (fresh_trader env) ds) = set (map TraderID ds)"
  by (simp add: traderIDs_def)

lemma reload_ok_nonnil:
  assumes "handleAdminReload env (Inr ds) tm = (StatusOK a r n, tr, tm')"
  shows "tm \<noteq> [] \<or> ds = []"
proof (rule ccontr)
  assume "\<not> (tm \<noteq> [] \<or> ds = [])"
  then obtain td tds where "tm = []" "ds = td # tds"
    by (cases ds) auto
  with assms reload_panics [of env td tds] show False by simp
qed

text \<open>Accepted and rejected new records have different identifiers.\<close>

lemma split_by_acceptance:
  assumes "distinct (map TraderID ds)"
  shows "set (map TraderID (filter P ds)) = set (map TraderID ds) - set (map TraderID (filter (\<lambda>td. \<not> P td) ds))"
  using assms by (induction ds) auto

lemma filter_other_id:
  "a \<noteq> k \<Longrightarrow> filter (\<lambda>t. GetID t = k) (filter (\<lambda>t. GetID t \<noteq> a) tm) = filter (\<lambda>t. GetID t = k) tm"
  by (induction tm) auto

lemma filter_other_id_merged:
  "a \<noteq> k \<Longrightarrow> filter (\<lambda>x. GetID x \<noteq> a \<and> GetID x = k) tm = filter (\<lambda>t. GetID t = k) tm"
  by (induction tm) auto

lemma filter_Run_other:
  "a \<noteq> k \<Longrightarrow> filter (\<lambda>t. GetID t = k) (Run a tm) = filter (\<lambda>t. GetID t = k) tm"
  by (induction tm) (auto simp: Run_def)

lemma config_after_switch:
  "map config (filter (\<lambda>t. GetID t = k)
      (map (\<lambda>x. if GetID x = a then x\<lparr>tradingEnabled := v\<rparr> else x) tm))
   = map config (filter (\<lambda>t. GetID t = k) tm)"
  by (induction tm) auto

lemma running_after_switch:
  "map running (filter (\<lambda>t. GetID t = k)
      (map (\<lambda>x. if GetID x = a then x\<lparr>tradingEnabled := v\<rparr> else x) tm))
   = map running (filter (\<lambda>t. GetID t = k) tm)"
  by (induction tm) auto

text \<open>What each loop leaves alone, for an identifier that is both live and desired.\<close>

lemma remove_loop_frame:
  assumes "index_bool db k"
  shows "filter (\<lambda>t. GetID t = k) (manager (snd (remove_loop db ks n p)))
           = filter (\<lambda>t. GetID t = k) (manager p)
         \<and> (k \<in> set (map fst (removal_calls (trace (snd (remove_loop db ks n p)))))
              \<longrightarrow> k \<in> set (map fst (removal_calls (trace p))))
         \<and> addition_calls (trace (snd (remove_loop db ks n p))) = addition_calls (trace p)"
proof (induction ks arbitrary: n p)
  case Nil
  show ?case by simp
next
  case (Cons a ks)
  show ?case
  proof (cases "index_bool db a")
    case True
    then show ?thesis using Cons.IH by simp
  next
    case False
    with assms have ne: "a \<noteq> k" by auto
    show ?thesis
    proof (cases "RemoveTrader a (manager p)")
      case (Inl err)
      let ?p = "p\<lparr>trace := trace p @ [Called_RemoveTrader a (Some err)]\<rparr>"
      have "remove_loop db (a # ks) n p = remove_loop db ks n ?p"
        using False Inl by simp
      with Cons.IH [of n ?p] ne show ?thesis by simp
    next
      case (Inr tm1)
      let ?p = "\<lparr>manager = tm1, trace = trace p @ [Called_RemoveTrader a None]\<rparr>"
      from Inr have tm1: "tm1 = filter (\<lambda>t. GetID t \<noteq> a) (manager p)"
        by (simp add: RemoveTrader_def split: if_splits)
      have "remove_loop db (a # ks) n p = remove_loop db ks (n + 1) ?p"
        using False Inr by simp
      with Cons.IH [of "n + 1" ?p] ne show ?thesis
        by (simp add: tm1 filter_other_id_merged)
    qed
  qed
qed

lemma add_loop_frame:
  assumes "index_bool ids k"
  shows "filter (\<lambda>t. GetID t = k) (manager (snd (add_loop env cur ids ds n p)))
           = filter (\<lambda>t. GetID t = k) (manager p)
         \<and> (k \<in> set (map fst (addition_calls (trace (snd (add_loop env cur ids ds n p)))))
              \<longrightarrow> k \<in> set (map fst (addition_calls (trace p))))
         \<and> removal_calls (trace (snd (add_loop env cur ids ds n p))) = removal_calls (trace p)"
proof (induction ds arbitrary: n p)
  case Nil
  show ?case by simp
next
  case (Cons d ds)
  show ?case
  proof (cases "index_bool ids (TraderID d)")
    case True
    then show ?thesis using Cons.IH by simp
  next
    case False
    with assms have ne: "TraderID d \<noteq> k" by auto
    show ?thesis
    proof (cases "globalConfig_of cur")
      case None
      with False show ?thesis by simp
    next
      case (Some g)
      show ?thesis
      proof (cases "AddTrader env (ToConfig d) (CoinPoolAPIURL g) (MaxDailyLoss g) (MaxDrawdown g)
                      (StopTradingMinutes g) (Leverage g) (manager p)")
        case (Inl err)
        let ?p = "p\<lparr>trace := trace p @ [Called_AddTrader (ToConfig d) (Some err)]\<rparr>"
        have "add_loop env cur ids (d # ds) n p = add_loop env cur ids ds n ?p"
          using False Some Inl by simp
        with Cons.IH [of n ?p] ne show ?thesis by simp
      next
        case (Inr tm1)
        then have tm1: "filter (\<lambda>t. GetID t = k) tm1 = filter (\<lambda>t. GetID t = k) (manager p)"
          using ne by (auto simp: AddTrader_def GetID_def split: if_splits)
        show ?thesis
        proof (cases "GetTrader (TraderID d) tm1")
          case found: (Inr trader)
          let ?p = "\<lparr>manager = Run (TraderID d) tm1,
                     trace = trace p @ [Called_AddTrader (ToConfig d) None]\<rparr>"
          have "add_loop env cur ids (d # ds) n p = add_loop env cur ids ds (n + 1) ?p"
            using False Some Inr found by simp
          with Cons.IH [of "n + 1" ?p] ne show ?thesis
            by (simp add: tm1 filter_Run_other)
        next
          case missing: (Inl err)
          let ?p = "\<lparr>manager = tm1, trace = trace p @ [Called_AddTrader (ToConfig d) None]\<rparr>"
          have "add_loop env cur ids (d # ds) n p = add_loop env cur ids ds n ?p"
            using False Some Inr missing by simp
          with Cons.IH [of n ?p] ne show ?thesis
            by (simp add: tm1)
        qed
      qed
    qed
  qed
qed

lemma sync_loop_frame:
  "map config (filter (\<lambda>t. GetID t = k) (manager (snd (sync_loop en ts n p))))
     = map config (filter (\<lambda>t. GetID t = k) (manager p))
   \<and> map running (filter (\<lambda>t. GetID t = k) (manager (snd (sync_loop en ts n p))))
     = map running (filter (\<lambda>t. GetID t = k) (manager p))
   \<and> removal_calls (trace (snd (sync_loop en ts n p))) = removal_calls (trace p)
   \<and> addition_calls (trace (snd (sync_loop en ts n p))) = addition_calls (trace p)"
proof (induction ts arbitrary: n p)
  case Nil
  show ?case by simp
next
  case (Cons t ts)
  show ?case
  proof (cases "en (GetID t)")
    case None
    then show ?thesis using Cons.IH by simp
  next
    case (Some v)
    show ?thesis
    proof (cases "SetTradingEnabled (GetID t) v (manager p)")
      case (Inl err)
      let ?p = "p\<lparr>trace := trace p @ [Called_SetTradingEnabled (GetID t) v (Some err)]\<rparr>"
      have "sync_loop en (t # ts) n p = sync_loop en ts (n + 1) ?p"
        using Some Inl by simp
      with Cons.IH [of "n + 1" ?p] show ?thesis by simp
    next
      case (Inr tm1)
      let ?p = "\<lparr>manager = tm1, trace = trace p @ [Called_SetTradingEnabled (GetID t) v None]\<rparr>"
      from Inr have tm1: "tm1 = map (\<lambda>x. if GetID x = GetID t then x\<lparr>tradingEnabled := v\<rparr> else x) (manager p)"
        by (simp add: SetTradingEnabled_def split: if_splits)
      have "sync_loop en (t # ts) n p = sync_loop en ts (n + 1) ?p"
        using Some Inr by simp
      with Cons.IH [of "n + 1" ?p] show ?thesis
        by (simp add: tm1 config_after_switch running_after_switch)
    qed
  qed
qed

lemma reject_pass:
  "fst (handleAdminReload named_only (Inr example_desired_with_reject) example_live) = StatusOK 1 1 2"
  by (simp add: reload_defs example_defs example_desired_with_reject_def)

lemma reject_distinct: "distinct (map TraderID example_desired_with_reject)"
  by (simp add: example_defs example_desired_with_reject_def)

text \<open>What a pass that answers with counts has done, read off the closed form.\<close>

lemma reload_outcome:
  assumes "distinct (map GetID tm)" and "distinct (map TraderID ds)"
    and "handleAdminReload env (Inr ds) tm = (StatusOK added removed synced, tr, tm')"
  shows "added = length (filter (accepted env) (fresh_docs tm ds))"
    and "removed = length (stale tm ds)"
    and "synced = length (kept tm ds) + length (filter (accepted env) (fresh_docs tm ds))"
    and "removal_calls tr = map (\<lambda>k. (k, None)) (stale tm ds)"
    and "addition_calls tr =
           map (\<lambda>td. (TraderID td, if accepted env td then None else Some InvalidConfig))
             (fresh_docs tm ds)"
    and "switch_calls tr =
           map (\<lambda>t. (GetID t, the (collect_enabled ds (GetID t))))
             (kept tm ds @ map (fresh_trader env) (filter (accepted env) (fresh_docs tm ds)))"
    and "tm' = map (switch_to (collect_enabled ds))
                 (kept tm ds @ map (fresh_trader env) (filter (accepted env) (fresh_docs tm ds)))"
proof -
  let ?TR = "map (\<lambda>k. Called_RemoveTrader k None) (stale tm ds)
              @ map (\<lambda>td. Called_AddTrader (ToConfig td)
                            (if accepted env td then None else Some InvalidConfig)) (fresh_docs tm ds)
              @ map (\<lambda>t. Called_SetTradingEnabled (GetID t) (the (collect_enabled ds (GetID t))) None)
                  (kept tm ds @ map (fresh_trader env) (filter (accepted env) (fresh_docs tm ds)))"
  have "handleAdminReload env (Inr ds) tm =
      (StatusOK (length (filter (accepted env) (fresh_docs tm ds)))
                (length (stale tm ds))
                (length (kept tm ds) + length (filter (accepted env) (fresh_docs tm ds))),
       ?TR,
       map (switch_to (collect_enabled ds))
         (kept tm ds @ map (fresh_trader env) (filter (accepted env) (fresh_docs tm ds))))"
    using assms(1,2) reload_ok_nonnil [OF assms(3)] by (rule reload_completes)
  with assms(3) have a: "added = length (filter (accepted env) (fresh_docs tm ds))"
    and r: "removed = length (stale tm ds)"
    and n: "synced = length (kept tm ds) + length (filter (accepted env) (fresh_docs tm ds))"
    and tr: "tr = ?TR"
    and m: "tm' = map (switch_to (collect_enabled ds))
                 (kept tm ds @ map (fresh_trader env) (filter (accepted env) (fresh_docs tm ds)))"
    by simp_all
  show "added = length (filter (accepted env) (fresh_docs tm ds))" by (rule a)
  show "removed = length (stale tm ds)" by (rule r)
  show "synced = length (kept tm ds) + length (filter (accepted env) (fresh_docs tm ds))"
    by (rule n)
  show "tm' = map (switch_to (collect_enabled ds))
                 (kept tm ds @ map (fresh_trader env) (filter (accepted env) (fresh_docs tm ds)))"
    by (rule m)
  show "removal_calls tr = map (\<lambda>k. (k, None)) (stale tm ds)"
    unfolding tr
    by (simp only: removal_calls_append calls_of_removals calls_of_additions calls_of_switches
        append_Nil2)
  show "addition_calls tr =
           map (\<lambda>td. (TraderID td, if accepted env td then None else Some InvalidConfig))
             (fresh_docs tm ds)"
    unfolding tr
    by (simp only: addition_calls_append calls_of_removals calls_of_additions calls_of_switches
        append_Nil append_Nil2)
  show "switch_calls tr =
           map (\<lambda>t. (GetID t, the (collect_enabled ds (GetID t))))
             (kept tm ds @ map (fresh_trader env) (filter (accepted env) (fresh_docs tm ds)))"
    unfolding tr
    by (simp only: switch_calls_append calls_of_removals calls_of_additions calls_of_switches
        append_Nil)
qed

section \<open>The reload handler: claims\<close>

text \<open>
  C1, as the source has it. In a pass that answers with counts, on a registry and a
  snapshot without duplicate identifiers, \<open>SetTradingEnabled\<close> is called once for each
  identifier that is live after the additions and desired: the identifiers live before
  and desired, and the identifiers added by this pass. Each call carries the \<open>enabled\<close>
  value of the record with that identifier, and the synced count is the size of the
  intersection plus the added count. For the snapshot A (enabled), B (disabled) and the
  live traders B and C, with A accepted, the pass answers added 1, removed 1, synced 2.
\<close>

theorem switch_sync_covers_added_traders:
  assumes "distinct (map GetID tm)" and "distinct (map TraderID ds)"
    and "handleAdminReload env (Inr ds) tm = (StatusOK added removed synced, tr, tm')"
  shows "set (map fst (switch_calls tr)) =
           (traderIDs tm \<inter> desiredIDs ds) \<union> set (succeeded (addition_calls tr))
       \<and> set (map fst (switch_calls tr)) = traderIDs tm' \<inter> desiredIDs ds
       \<and> distinct (map fst (switch_calls tr))
       \<and> (\<forall>(k, v) \<in> set (switch_calls tr). \<exists>td \<in> set ds. TraderID td = k \<and> doc_Enabled td = v)
       \<and> synced = card (traderIDs tm \<inter> desiredIDs ds) + added
       \<and> fst (handleAdminReload accept_all (Inr example_desired) example_live) = StatusOK 1 1 2"
proof -
  let ?acc = "filter (accepted env) (fresh_docs tm ds)"
  let ?ts = "kept tm ds @ map (fresh_trader env) ?acc"
  let ?en = "collect_enabled ds"
  note added = reload_outcome(1) [OF assms] and synced = reload_outcome(3) [OF assms]
    and ad = reload_outcome(5) [OF assms] and sw = reload_outcome(6) [OF assms]
    and tm' = reload_outcome(7) [OF assms]
  have ids: "map fst (switch_calls tr) = map GetID ?ts"
    by (simp add: sw comp_def)
  have ok_ids: "succeeded (addition_calls tr) = map TraderID ?acc"
    by (simp add: ad succeeded_def filter_map comp_def)
  have live: "traderIDs tm' = (traderIDs tm \<inter> desiredIDs ds) \<union> set (map TraderID ?acc)"
    unfolding tm'
    by (simp only: traderIDs_switch_to traderIDs_append ids_kept traderIDs_fresh_traders)
  have within: "set (map TraderID ?acc) \<subseteq> desiredIDs ds - traderIDs tm"
    using ids_fresh [of tm ds] by auto
  have 1: "set (map fst (switch_calls tr)) =
      (traderIDs tm \<inter> desiredIDs ds) \<union> set (succeeded (addition_calls tr))"
    using ids_kept [of tm ds] by (simp add: ids ok_ids traderIDs_def)
  have 2: "set (map fst (switch_calls tr)) = traderIDs tm' \<inter> desiredIDs ds"
    unfolding 1 ok_ids live using within by blast
  have "distinct (map GetID (kept tm ds))"
    using assms(1) by (rule distinct_kept)
  moreover have "distinct (map TraderID ?acc)"
    using distinct_fresh [OF assms(2), of tm] by (simp add: distinct_map_filter)
  moreover have "set (map GetID (kept tm ds)) \<inter> set (map TraderID ?acc) = {}"
    using within ids_kept [of tm ds] by (auto simp: traderIDs_def)
  ultimately have 3: "distinct (map fst (switch_calls tr))"
    by (simp add: ids comp_def)
  have 4: "\<forall>(k, v) \<in> set (switch_calls tr). \<exists>td \<in> set ds. TraderID td = k \<and> doc_Enabled td = v"
  proof (clarify)
    fix k v assume "(k, v) \<in> set (switch_calls tr)"
    then have "(k, v) \<in> (\<lambda>t. (GetID t, the (?en (GetID t)))) ` set ?ts"
      unfolding sw by (simp only: set_map)
    then obtain t where t: "t \<in> set ?ts" and kv: "(k, v) = (GetID t, the (?en (GetID t)))"
      by blast
    from kv have k: "k = GetID t" and v: "v = the (?en (GetID t))"
      by blast+
    from t have "GetID t \<in> desiredIDs ds"
      using within ids_kept [of tm ds] by (auto simp: traderIDs_def)
    then have "GetID t \<in> dom ?en"
      by (simp add: dom_collect_enabled desiredIDs_def)
    then have "?en k = Some v"
      using k v by auto
    then show "\<exists>td \<in> set ds. TraderID td = k \<and> doc_Enabled td = v"
      by (rule collect_enabled_value)
  qed
  have 5: "synced = card (traderIDs tm \<inter> desiredIDs ds) + added"
    by (simp add: synced added length_kept [OF assms(1)])
  from 1 2 3 4 5 example_pass show ?thesis by simp
qed

theorem switch_sync_covers_added_traders_witness:
  "distinct (map GetID example_live) \<and> distinct (map TraderID example_desired_with_reject)
   \<and> fst (handleAdminReload named_only (Inr example_desired_with_reject) example_live) = StatusOK 1 1 2
   \<and> set (map fst (switch_calls
            (fst (snd (handleAdminReload named_only (Inr example_desired_with_reject) example_live)))))
       = traderIDs (snd (snd (handleAdminReload named_only (Inr example_desired_with_reject) example_live)))
           \<inter> desiredIDs example_desired_with_reject
   \<and> (2::nat) = card (traderIDs example_live \<inter> desiredIDs example_desired_with_reject) + 1"
proof -
  let ?X = "handleAdminReload named_only (Inr example_desired_with_reject) example_live"
  have "?X = (StatusOK 1 1 2, fst (snd ?X), snd (snd ?X))"
    using reject_pass by (metis prod.collapse)
  from switch_sync_covers_added_traders [OF example_distinct(1) reject_distinct this]
  have "set (map fst (switch_calls (fst (snd ?X)))) =
          traderIDs (snd (snd ?X)) \<inter> desiredIDs example_desired_with_reject"
    and "(2::nat) = card (traderIDs example_live \<inter> desiredIDs example_desired_with_reject) + 1"
    by blast+
  with example_distinct(1) reject_distinct reject_pass show ?thesis
    by blast
qed

text \<open>
  The claim as it was stated fails on its own example: the pass applies the switch to B
  and to the freshly added A and answers synced 2, while the intersection is B alone.
\<close>

theorem sync_limited_to_intersection_counterexample:
  "fst (handleAdminReload accept_all (Inr example_desired) example_live) = StatusOK 1 1 2
   \<and> switch_calls (fst (snd (handleAdminReload accept_all (Inr example_desired) example_live)))
       = [(''B'', False), (''A'', True)]
   \<and> traderIDs example_live \<inter> desiredIDs example_desired = {''B''}
   \<and> (2::nat) \<noteq> card (traderIDs example_live \<inter> desiredIDs example_desired)"
proof -
  have "traderIDs example_live \<inter> desiredIDs example_desired = {''B''}"
    by (auto simp: example_sets)
  then show ?thesis
    by (simp add: example_pass)
qed

text \<open>
  C2. In a pass that answers with counts, on a registry and a snapshot without duplicate
  identifiers: \<open>RemoveTrader\<close> is called once for each identifier that is live and not
  desired, \<open>AddTrader\<close> once for each identifier that is desired and not live; afterwards
  the live set is the desired set without the failed additions and with the failed
  removals; and each count is the size of its difference set minus the failed calls.
\<close>

theorem reload_applies_set_difference:
  assumes "distinct (map GetID tm)" and "distinct (map TraderID ds)"
    and "handleAdminReload env (Inr ds) tm = (StatusOK added removed synced, tr, tm')"
  shows "set (map fst (removal_calls tr)) = traderIDs tm - desiredIDs ds
       \<and> distinct (map fst (removal_calls tr))
       \<and> set (map fst (addition_calls tr)) = desiredIDs ds - traderIDs tm
       \<and> distinct (map fst (addition_calls tr))
       \<and> traderIDs tm' =
           (desiredIDs ds - set (failed (addition_calls tr))) \<union> set (failed (removal_calls tr))
       \<and> added + length (failed (addition_calls tr)) = card (desiredIDs ds - traderIDs tm)
       \<and> removed + length (failed (removal_calls tr)) = card (traderIDs tm - desiredIDs ds)"
proof -
  let ?fresh = "fresh_docs tm ds"
  let ?acc = "filter (accepted env) ?fresh"
  let ?rej = "filter (\<lambda>td. \<not> accepted env td) ?fresh"
  let ?ts = "kept tm ds @ map (fresh_trader env) ?acc"
  note added = reload_outcome(1) [OF assms] and removed = reload_outcome(2) [OF assms]
    and rm = reload_outcome(4) [OF assms] and ad = reload_outcome(5) [OF assms]
    and tm' = reload_outcome(7) [OF assms]
  have rm_ids: "map fst (removal_calls tr) = stale tm ds"
    by (simp add: rm comp_def)
  have ad_ids: "map fst (addition_calls tr) = map TraderID ?fresh"
    by (simp add: ad comp_def)
  have rm_failed: "failed (removal_calls tr) = []"
    by (simp add: rm failed_def filter_map comp_def)
  have ad_failed: "failed (addition_calls tr) = map TraderID ?rej"
    by (simp add: ad failed_def filter_map comp_def)
  have 1: "set (map fst (removal_calls tr)) = traderIDs tm - desiredIDs ds"
    by (simp only: rm_ids set_stale)
  have 2: "distinct (map fst (removal_calls tr))"
    using assms(1) by (simp only: rm_ids distinct_stale)
  have 3: "set (map fst (addition_calls tr)) = desiredIDs ds - traderIDs tm"
    by (simp only: ad_ids ids_fresh)
  have 4: "distinct (map fst (addition_calls tr))"
    using assms(2) by (simp only: ad_ids distinct_fresh)
  have split: "set (map TraderID ?acc) = (desiredIDs ds - traderIDs tm) - set (map TraderID ?rej)"
    using split_by_acceptance [OF distinct_fresh [OF assms(2), of tm], of "accepted env"]
    by (simp only: ids_fresh)
  have rej_new: "set (map TraderID ?rej) \<subseteq> desiredIDs ds - traderIDs tm"
    using ids_fresh [of tm ds] by auto
  have "traderIDs tm' = (traderIDs tm \<inter> desiredIDs ds) \<union> set (map TraderID ?acc)"
    unfolding tm'
    by (simp only: traderIDs_switch_to traderIDs_append ids_kept traderIDs_fresh_traders)
  also have "\<dots> = desiredIDs ds - set (map TraderID ?rej)"
    using rej_new unfolding split by blast
  finally have 5: "traderIDs tm' =
      (desiredIDs ds - set (failed (addition_calls tr))) \<union> set (failed (removal_calls tr))"
    by (simp add: rm_failed ad_failed)
  have "length ?acc + length ?rej = length ?fresh"
    by (rule sum_length_filter_compl)
  then have 6: "added + length (failed (addition_calls tr)) = card (desiredIDs ds - traderIDs tm)"
    by (simp add: added ad_failed length_fresh [OF assms(2)])
  have 7: "removed + length (failed (removal_calls tr)) = card (traderIDs tm - desiredIDs ds)"
    by (simp add: removed rm_failed length_stale [OF assms(1)])
  from 1 2 3 4 5 6 7 show ?thesis by blast
qed

theorem reload_applies_set_difference_witness:
  "distinct (map GetID example_live) \<and> distinct (map TraderID example_desired_with_reject)
   \<and> fst (handleAdminReload named_only (Inr example_desired_with_reject) example_live) = StatusOK 1 1 2
   \<and> set (map fst (removal_calls
            (fst (snd (handleAdminReload named_only (Inr example_desired_with_reject) example_live)))))
       = traderIDs example_live - desiredIDs example_desired_with_reject
   \<and> 1 + length (failed (addition_calls
            (fst (snd (handleAdminReload named_only (Inr example_desired_with_reject) example_live)))))
       = card (desiredIDs example_desired_with_reject - traderIDs example_live)"
proof -
  let ?X = "handleAdminReload named_only (Inr example_desired_with_reject) example_live"
  have "?X = (StatusOK 1 1 2, fst (snd ?X), snd (snd ?X))"
    using reject_pass by (metis prod.collapse)
  from reload_applies_set_difference [OF example_distinct(1) reject_distinct this]
  have "set (map fst (removal_calls (fst (snd ?X)))) =
          traderIDs example_live - desiredIDs example_desired_with_reject"
    and "1 + length (failed (addition_calls (fst (snd ?X)))) =
          card (desiredIDs example_desired_with_reject - traderIDs example_live)"
    by blast+
  with example_distinct(1) reject_distinct reject_pass show ?thesis
    by blast
qed

text \<open>
  C3. When \<open>db.ListTraders\<close> fails, the handler answers 500 with the text of that error
  after the fixed prefix, makes no registry call, and leaves the registry as it was.
\<close>

theorem failed_fetch_aborts_the_pass:
  "handleAdminReload env (Inl err) tm = (StatusInternalServerError (msg_load_failed @ Error err), [], tm)"
  by (simp add: handleAdminReload_def)

text \<open>
  C4. An identifier that is both live and desired is never passed to \<open>RemoveTrader\<close> nor
  to \<open>AddTrader\<close>, and its handle keeps its configuration and its running task, whatever
  the record in the snapshot says and however the pass ends.
\<close>

theorem shared_trader_is_left_alone:
  assumes "k \<in> traderIDs tm" and "k \<in> desiredIDs ds"
    and "handleAdminReload env (Inr ds) tm = (resp, tr, tm')"
  shows "k \<notin> set (map fst (removal_calls tr))
       \<and> k \<notin> set (map fst (addition_calls tr))
       \<and> map config (filter (\<lambda>t. GetID t = k) tm') = map config (filter (\<lambda>t. GetID t = k) tm)
       \<and> map running (filter (\<lambda>t. GetID t = k) tm') = map running (filter (\<lambda>t. GetID t = k) tm)"
proof -
  let ?db = "mark_ids (map TraderID ds)"
  let ?ids = "mark_ids (map GetID tm)"
  let ?p0 = "\<lparr>manager = tm, trace = []\<rparr>"
  obtain r p1 where rm: "remove_loop ?db (remdups (map GetID tm)) 0 ?p0 = (r, p1)"
    by (cases "remove_loop ?db (remdups (map GetID tm)) 0 ?p0")
  obtain a p2 where add: "add_loop env tm ?ids ds 0 p1 = (a, p2)"
    by (cases "add_loop env tm ?ids ds 0 p1")
  obtain n p3 where sync: "sync_loop (collect_enabled ds) (manager p2) 0 p2 = (n, p3)"
    by (cases "sync_loop (collect_enabled ds) (manager p2) 0 p2")
  have inD: "index_bool ?db k" and inL: "index_bool ?ids k"
    using assms(1,2) by (simp_all add: desiredIDs_def traderIDs_def)
  from remove_loop_frame [OF inD, of "remdups (map GetID tm)" 0 ?p0] rm
  have f1: "filter (\<lambda>t. GetID t = k) (manager p1) = filter (\<lambda>t. GetID t = k) tm"
    and r1: "k \<notin> set (map fst (removal_calls (trace p1)))"
    and a1: "addition_calls (trace p1) = []"
    by auto
  from add_loop_frame [OF inL, of env tm ds 0 p1] add f1 r1 a1
  have f2: "filter (\<lambda>t. GetID t = k) (manager p2) = filter (\<lambda>t. GetID t = k) tm"
    and r2: "k \<notin> set (map fst (removal_calls (trace p2)))"
    and a2: "k \<notin> set (map fst (addition_calls (trace p2)))"
    by auto
  show ?thesis
  proof (cases a)
    case None
    with assms(3) rm add have "tr = trace p2" "tm' = manager p2"
      by (simp_all add: handleAdminReload_def GetAllTraders_def)
    with f2 r2 a2 show ?thesis by simp
  next
    case (Some added)
    with assms(3) rm add sync have "tr = trace p3" "tm' = manager p3"
      by (simp_all add: handleAdminReload_def GetAllTraders_def)
    with sync_loop_frame [of k "collect_enabled ds" "manager p2" 0 p2] sync f2 r2 a2
    show ?thesis by simp
  qed
qed

theorem shared_trader_is_left_alone_witness:
  "''B'' \<in> traderIDs example_live \<and> ''B'' \<in> desiredIDs example_desired
   \<and> ''B'' \<notin> set (map fst (removal_calls
        (fst (snd (handleAdminReload accept_all (Inr example_desired) example_live)))))
   \<and> ''B'' \<notin> set (map fst (addition_calls
        (fst (snd (handleAdminReload accept_all (Inr example_desired) example_live)))))
   \<and> map config (filter (\<lambda>t. GetID t = ''B'')
        (snd (snd (handleAdminReload accept_all (Inr example_desired) example_live))))
      = [ToConfig (example_doc ''B'' ''old beta'' True)]
   \<and> ToConfig (example_doc ''B'' ''old beta'' True) \<noteq> ToConfig (example_doc ''B'' ''beta'' False)"
proof -
  let ?X = "handleAdminReload accept_all (Inr example_desired) example_live"
  have L: "''B'' \<in> traderIDs example_live" and D: "''B'' \<in> desiredIDs example_desired"
    by (simp_all add: example_sets)
  have X: "?X = (fst ?X, fst (snd ?X), snd (snd ?X))"
    by simp
  have old: "map config (filter (\<lambda>t. GetID t = ''B'') example_live)
      = [ToConfig (example_doc ''B'' ''old beta'' True)]"
    by (simp add: example_defs)
  have differ: "ToConfig (example_doc ''B'' ''old beta'' True) \<noteq> ToConfig (example_doc ''B'' ''beta'' False)"
    by (simp add: example_defs)
  from shared_trader_is_left_alone [OF L D X] old differ L D
  show ?thesis by simp
qed

text \<open>
  C9 does not hold of the source. With no live trader and at least one record in the
  snapshot, the first addition reads a field through the nil \<open>globalConfig\<close>: the handler
  panics before any registry call, and no trader is added.
\<close>

theorem first_addition_into_empty_registry_panics:
  "handleAdminReload env (Inr (td # tds)) [] = (Panicked, [], [])
   \<and> globalConfig_of [] = None"
  by (simp add: reload_panics globalConfig_of_def)

end
